theory Spec2Isabelle
  imports Complex_Main "HOL-Library.Product_Lexorder"
begin

section \<open>Data model\<close>

text \<open>
  The planner reads the world through the controller: the map (a grid of tiles, indexed
  \<^verbatim>\<open>m.tiles[x][y]\<close>), the state of each bot of the team, the orders, the turn
  and the money. Items are \<^verbatim>\<open>Food\<close>, \<^verbatim>\<open>Plate\<close> or \<^verbatim>\<open>Pan\<close>; what a bot
  holds carries the same information (a dict with the key \<^verbatim>\<open>type\<close>).
\<close>

type_synonym cell = "int \<times> int"

record food =
  food_name :: string
  chopped :: bool
  cooked_stage :: int

datatype item = Food food | Plate bool "food list" | Pan "food option"

record tile =
  tile_name :: string
  is_walkable :: bool
  item :: "item option"

record gmap =
  width :: int
  height :: int
  tiles :: "tile list list"

record bot_state =
  bot_x :: int
  bot_y :: int
  holding :: "item option"

record order =
  order_id :: int
  is_active :: bool
  required :: "string list"
  reward :: "int option"
  penalty :: "int option"
  expires_turn :: "int option"

record world =
  get_map :: gmap
  get_team_bot_ids :: "int list"
  get_bot_state :: "int \<Rightarrow> bot_state option"
  get_orders :: "order list"
  get_turn :: int
  get_team_money :: int

text \<open>\<^verbatim>\<open>m.tiles[x][y]\<close>, read only at coordinates the code has checked or found on the map.\<close>

definition tile_at :: "gmap \<Rightarrow> cell \<Rightarrow> tile" where
  "tile_at m c = tiles m ! nat (fst c) ! nat (snd c)"

section \<open>Pathfinding\<close>

text \<open>\<^verbatim>\<open>max(abs(sx - gx), abs(sy - gy))\<close>\<close>

definition cheb :: "cell \<Rightarrow> cell \<Rightarrow> int" where
  "cheb a b = max \<bar>fst a - fst b\<bar> \<bar>snd a - snd b\<bar>"

text \<open>The two nested loops over \<^verbatim>\<open>[-1, 0, 1]\<close>, skipping \<^verbatim>\<open>(0, 0)\<close>.\<close>

definition dirs :: "cell list" where
  "dirs = filter (\<lambda>(dx, dy). \<not> (dx = 0 \<and> dy = 0)) (List.product [-1, 0, 1] [-1, 0, 1])"

text \<open>The cells of the team's bots that have a state.\<close>

definition occupied :: "world \<Rightarrow> cell set" where
  "occupied w =
     set (concat (map (\<lambda>bid. case get_bot_state w bid of
                         None \<Rightarrow> [] | Some st \<Rightarrow> [(bot_x st, bot_y st)])
                      (get_team_bot_ids w)))"

text \<open>The body of the inner loop for one direction: the four \<^verbatim>\<open>continue\<close> guards in the
  order of the source, then the cell is marked visited and queued with its path.\<close>

definition visit_neighbor ::
  "gmap \<Rightarrow> cell set \<Rightarrow> cell \<Rightarrow> cell \<Rightarrow> cell list \<Rightarrow>
   cell set \<times> (cell \<times> cell list) list \<Rightarrow> cell \<Rightarrow> cell set \<times> (cell \<times> cell list) list" where
  "visit_neighbor m occ start c path vq d =
     (let nx = fst c + fst d; ny = snd c + snd d; visited = fst vq; queue = snd vq in
      if (nx, ny) \<in> visited then vq
      else if \<not> (0 \<le> nx \<and> nx < width m \<and> 0 \<le> ny \<and> ny < height m) then vq
      else if (nx, ny) \<in> occ \<and> (nx, ny) \<noteq> start then vq
      else if \<not> is_walkable (tile_at m (nx, ny)) then vq
      else (insert (nx, ny) visited, queue @ [((nx, ny), path @ [d])]))"

definition explore ::
  "gmap \<Rightarrow> cell set \<Rightarrow> cell \<Rightarrow> cell \<Rightarrow> cell list \<Rightarrow>
   cell set \<times> (cell \<times> cell list) list \<Rightarrow> cell set \<times> (cell \<times> cell list) list" where
  "explore m occ start c path vq = foldl (visit_neighbor m occ start c path) vq dirs"

text \<open>The cells inside the map.\<close>

definition in_bounds :: "gmap \<Rightarrow> cell set" where
  "in_bounds m = {0 ..< width m} \<times> {0 ..< height m}"

lemma finite_in_bounds: "finite (in_bounds m)"
  by (simp add: in_bounds_def)

lemma dirs_eq: "dirs = [(-1,-1),(-1,0),(-1,1),(0,-1),(0,1),(1,-1),(1,0),(1,1)]"
  by (simp add: dirs_def)

lemma distinct_dirs: "distinct dirs"
  by (simp add: dirs_eq)

definition move :: "cell \<Rightarrow> cell \<Rightarrow> cell" where
  "move c d = (fst c + fst d, snd c + snd d)"

definition passable :: "gmap \<Rightarrow> cell set \<Rightarrow> cell \<Rightarrow> cell \<Rightarrow> bool" where
  "passable m occ start n \<longleftrightarrow>
     (0 \<le> fst n \<and> fst n < width m \<and> 0 \<le> snd n \<and> snd n < height m)
     \<and> \<not> (n \<in> occ \<and> n \<noteq> start) \<and> is_walkable (tile_at m n)"

definition fresh :: "gmap \<Rightarrow> cell set \<Rightarrow> cell \<Rightarrow> cell \<Rightarrow> cell set \<Rightarrow> cell list \<Rightarrow> cell list" where
  "fresh m occ start c V ds = filter (\<lambda>d. move c d \<notin> V \<and> passable m occ start (move c d)) ds"

lemma visit_neighbor_eq:
  "visit_neighbor m occ start c path (V, Q) d =
     (if move c d \<notin> V \<and> passable m occ start (move c d)
      then (insert (move c d) V, Q @ [(move c d, path @ [d])]) else (V, Q))"
  by (auto simp: visit_neighbor_def move_def passable_def Let_def)

lemma move_inj: "move c d = move c d' \<longleftrightarrow> d = d'"
  by (auto simp: move_def prod_eq_iff)

lemma foldl_visit:
  "distinct ds \<Longrightarrow>
   foldl (visit_neighbor m occ start c path) (V, Q) ds =
     (V \<union> move c ` set (fresh m occ start c V ds),
      Q @ map (\<lambda>d. (move c d, path @ [d])) (fresh m occ start c V ds))"
proof (induction ds arbitrary: V Q)
  case Nil
  then show ?case by (simp add: fresh_def)
next
  case (Cons d ds)
  have d: "d \<notin> set ds" "distinct ds" using Cons.prems by auto
  show ?case
  proof (cases "move c d \<notin> V \<and> passable m occ start (move c d)")
    case True
    have "fresh m occ start c (insert (move c d) V) ds = fresh m occ start c V ds"
      unfolding fresh_def using d(1) by (auto simp: move_inj intro!: filter_cong)
    with True show ?thesis
      using Cons.IH[OF d(2), of "insert (move c d) V" "Q @ [(move c d, path @ [d])]"]
      by (simp add: visit_neighbor_eq fresh_def)
  next
    case False
    then show ?thesis
      using Cons.IH[OF d(2), of V Q] by (auto simp add: visit_neighbor_eq fresh_def)
  qed
qed

lemma explore_eq:
  "explore m occ start c path (V, Q) =
     (V \<union> move c ` set (fresh m occ start c V dirs),
      Q @ map (\<lambda>d. (move c d, path @ [d])) (fresh m occ start c V dirs))"
  unfolding explore_def by (rule foldl_visit[OF distinct_dirs])

function bfs_loop ::
  "gmap \<Rightarrow> cell set \<Rightarrow> cell \<Rightarrow> cell \<Rightarrow> (cell \<times> cell list) list \<Rightarrow> cell set \<Rightarrow> cell option" where
  "bfs_loop m occ start goal [] visited = None"
| "bfs_loop m occ start goal ((c, path) # queue) visited =
     (if cheb c goal \<le> 1 then (case path of [] \<Rightarrow> None | d # _ \<Rightarrow> Some d)
      else (let vq = explore m occ start c path (visited, queue)
            in bfs_loop m occ start goal (snd vq) (fst vq)))"
  by pat_completeness auto

lemma in_bounds_iff:
  "n \<in> in_bounds m \<longleftrightarrow> 0 \<le> fst n \<and> fst n < width m \<and> 0 \<le> snd n \<and> snd n < height m"
  by (cases n) (auto simp: in_bounds_def)

lemma fresh_cells:
  "move c ` set (fresh m occ start c V ds) \<subseteq> in_bounds m - V"
  by (auto simp: fresh_def passable_def in_bounds_iff)

lemma card_fresh:
  "distinct ds \<Longrightarrow> card (move c ` set (fresh m occ start c V ds)) = length (fresh m occ start c V ds)"
proof -
  assume "distinct ds"
  then have "distinct (map (move c) (fresh m occ start c V ds))"
    by (simp add: distinct_map inj_on_def move_inj fresh_def)
  then have "card (set (map (move c) (fresh m occ start c V ds))) = length (map (move c) (fresh m occ start c V ds))"
    by (rule distinct_card)
  then show ?thesis by simp
qed

termination bfs_loop
proof (relation "measure (\<lambda>(m, occ, start, goal, queue, visited).
          2 * card (in_bounds m - visited) + length queue)", goal_cases)
  case 1
  then show ?case by simp
next
  case (2 m occ start goal c path queue visited vq)
  let ?F = "move c ` set (fresh m occ start c visited dirs)"
  have sub: "?F \<subseteq> in_bounds m - visited" by (rule fresh_cells)
  have fin: "finite (in_bounds m - visited)" using finite_in_bounds by simp
  have "in_bounds m - (visited \<union> ?F) = (in_bounds m - visited) - ?F" by auto
  then have "card (in_bounds m - (visited \<union> ?F)) = card (in_bounds m - visited) - card ?F"
    using sub fin by (simp add: card_Diff_subset finite_subset)
  moreover have "card ?F \<le> card (in_bounds m - visited)"
    using sub fin by (rule card_mono[rotated])
  moreover have "card ?F = length (fresh m occ start c visited dirs)"
    by (rule card_fresh[OF distinct_dirs])
  ultimately show ?case using 2 by (simp add: explore_eq)
qed


fun walk :: "cell \<Rightarrow> cell list \<Rightarrow> cell" where
  "walk c [] = c"
| "walk c (d # ds) = walk (move c d) ds"

fun valid_path :: "gmap \<Rightarrow> cell set \<Rightarrow> cell \<Rightarrow> cell \<Rightarrow> cell list \<Rightarrow> bool" where
  "valid_path m occ start c [] = True"
| "valid_path m occ start c (d # ds) =
     (d \<in> set dirs \<and> passable m occ start (move c d) \<and> valid_path m occ start (move c d) ds)"

definition reaches :: "gmap \<Rightarrow> cell set \<Rightarrow> cell \<Rightarrow> cell \<Rightarrow> cell list \<Rightarrow> bool" where
  "reaches m occ start goal ds \<longleftrightarrow> valid_path m occ start start ds \<and> cheb (walk start ds) goal \<le> 1"

lemma walk_append: "walk c (p @ q) = walk (walk c p) q"
  by (induction p arbitrary: c) auto

lemma valid_path_append:
  "valid_path m occ start c (p @ q) \<longleftrightarrow>
     valid_path m occ start c p \<and> valid_path m occ start (walk c p) q"
  by (induction p arbitrary: c) auto

lemma fresh_iff:
  "d \<in> set (fresh m occ start c V ds) \<longleftrightarrow>
     d \<in> set ds \<and> move c d \<notin> V \<and> passable m occ start (move c d)"
  by (auto simp: fresh_def)

definition qinv :: "gmap \<Rightarrow> cell set \<Rightarrow> cell \<Rightarrow> (cell \<times> cell list) list \<Rightarrow> cell set \<Rightarrow> bool" where
  "qinv m occ start Q V \<longleftrightarrow>
     (\<forall>e \<in> set Q. valid_path m occ start start (snd e) \<and> walk start (snd e) = fst e \<and> fst e \<in> V
        \<and> (\<forall>q. valid_path m occ start start q \<and> walk start q = fst e \<longrightarrow> length (snd e) \<le> length q))"

definition levels :: "(cell \<times> cell list) list \<Rightarrow> bool" where
  "levels Q \<longleftrightarrow> sorted (map (\<lambda>e. length (snd e)) Q)
     \<and> (\<forall>e \<in> set Q. length (snd e) \<le> length (snd (hd Q)) + 1)"

definition expanded :: "gmap \<Rightarrow> cell set \<Rightarrow> cell \<Rightarrow> cell \<Rightarrow> (cell \<times> cell list) list \<Rightarrow> cell set \<Rightarrow> bool" where
  "expanded m occ start goal Q V \<longleftrightarrow>
     (\<forall>c \<in> V. c \<in> fst ` set Q
        \<or> (1 < cheb c goal \<and> (\<forall>d \<in> set dirs. passable m occ start (move c d) \<longrightarrow> move c d \<in> V)))"

definition near :: "gmap \<Rightarrow> cell set \<Rightarrow> cell \<Rightarrow> (cell \<times> cell list) list \<Rightarrow> cell set \<Rightarrow> bool" where
  "near m occ start Q V \<longleftrightarrow>
     (Q \<noteq> [] \<longrightarrow> (\<forall>q. valid_path m occ start start q \<and> length q \<le> length (snd (hd Q))
                     \<longrightarrow> walk start q \<in> V))"

definition bfs_inv :: "gmap \<Rightarrow> cell set \<Rightarrow> cell \<Rightarrow> cell \<Rightarrow> (cell \<times> cell list) list \<Rightarrow> cell set \<Rightarrow> bool" where
  "bfs_inv m occ start goal Q V \<longleftrightarrow>
     start \<in> V \<and> qinv m occ start Q V \<and> levels Q \<and> expanded m occ start goal Q V \<and> near m occ start Q V"

lemma qinv_min:
  "qinv m occ start Q V \<Longrightarrow> e \<in> set Q \<Longrightarrow> valid_path m occ start start q \<Longrightarrow>
   walk start q = fst e \<Longrightarrow> length (snd e) \<le> length q"
  unfolding qinv_def by (drule bspec, assumption) simp

lemma bfs_inv_init: "bfs_inv m occ start goal [(start, [])] {start}"
  by (auto simp: bfs_inv_def qinv_def levels_def expanded_def near_def)

lemma bfs_inv_step:
  assumes inv: "bfs_inv m occ start goal ((c, p) # Q0) V"
    and far: "1 < cheb c goal"
  defines "F \<equiv> fresh m occ start c V dirs"
  shows "bfs_inv m occ start goal (Q0 @ map (\<lambda>d. (move c d, p @ [d])) F) (V \<union> move c ` set F)"
proof -
  let ?Q' = "Q0 @ map (\<lambda>d. (move c d, p @ [d])) F"
  let ?V' = "V \<union> move c ` set F"
  from inv have sV: "start \<in> V"
    and qi: "qinv m occ start ((c, p) # Q0) V"
    and lv: "levels ((c, p) # Q0)"
    and ex: "expanded m occ start goal ((c, p) # Q0) V"
    and nr: "near m occ start ((c, p) # Q0) V"
    by (auto simp: bfs_inv_def)
  from qi have vp: "valid_path m occ start start p" and wp: "walk start p = c"
    by (auto simp: qinv_def)
  from nr have nearV: "\<And>q. valid_path m occ start start q \<Longrightarrow> length q \<le> length p \<Longrightarrow> walk start q \<in> V"
    by (auto simp: near_def)
  from lv have lenQ0: "\<And>e. e \<in> set Q0 \<Longrightarrow> length p \<le> length (snd e) \<and> length (snd e) \<le> length p + 1"
    by (auto simp: levels_def)
  from lv have sortedQ0: "sorted (map (\<lambda>e. length (snd e)) Q0)"
    by (auto simp: levels_def)
  have Fd: "\<And>d. d \<in> set F \<Longrightarrow> d \<in> set dirs \<and> move c d \<notin> V \<and> passable m occ start (move c d)"
    by (simp add: F_def fresh_iff)
  have lenQ': "\<And>e. e \<in> set ?Q' \<Longrightarrow> length p \<le> length (snd e) \<and> length (snd e) \<le> length p + 1"
    using lenQ0 by auto
  have q1: "qinv m occ start ?Q' ?V'"
    unfolding qinv_def
  proof
    fix e assume e: "e \<in> set ?Q'"
    show "valid_path m occ start start (snd e) \<and> walk start (snd e) = fst e \<and> fst e \<in> ?V'
        \<and> (\<forall>q. valid_path m occ start start q \<and> walk start q = fst e \<longrightarrow> length (snd e) \<le> length q)"
    proof (cases "e \<in> set Q0")
      case True
      then show ?thesis using qi by (auto simp: qinv_def)
    next
      case False
      with e obtain d where d: "d \<in> set F" and e_eq: "e = (move c d, p @ [d])" by auto
      have "\<And>q. valid_path m occ start start q \<Longrightarrow> walk start q = move c d \<Longrightarrow> length p + 1 \<le> length q"
      proof (rule ccontr)
        fix q assume q: "valid_path m occ start start q" "walk start q = move c d"
          and "\<not> length p + 1 \<le> length q"
        then have "length q \<le> length p" by simp
        from nearV[OF q(1) this] q(2) Fd[OF d] show False by simp
      qed
      then show ?thesis
        using d Fd[OF d] vp wp by (auto simp: e_eq valid_path_append walk_append)
    qed
  qed
  have q2: "levels ?Q'"
  proof -
    have "map ((\<lambda>e. length (snd e)) \<circ> (\<lambda>d. (move c d, p @ [d]))) F
            = replicate (length F) (length p + 1)"
      by (simp add: comp_def map_replicate_const)
    then have sF: "sorted (map ((\<lambda>e. length (snd e)) \<circ> (\<lambda>d. (move c d, p @ [d]))) F)"
      by simp
    have "sorted (map (\<lambda>e. length (snd e)) ?Q')"
      unfolding map_append sorted_append map_map
    proof (intro conjI ballI)
      show "sorted (map (\<lambda>e. length (snd e)) Q0)" by (rule sortedQ0)
      show "sorted (map ((\<lambda>e. length (snd e)) \<circ> (\<lambda>d. (move c d, p @ [d]))) F)" by (rule sF)
    next
      fix x y assume "x \<in> set (map (\<lambda>e. length (snd e)) Q0)"
        "y \<in> set (map ((\<lambda>e. length (snd e)) \<circ> (\<lambda>d. (move c d, p @ [d]))) F)"
      then show "x \<le> y" using lenQ0 by auto
    qed
    moreover have "\<forall>e \<in> set ?Q'. length (snd e) \<le> length (snd (hd ?Q')) + 1"
    proof
      fix e assume e: "e \<in> set ?Q'"
      show "length (snd e) \<le> length (snd (hd ?Q')) + 1"
      proof (cases "?Q' = []")
        case True then show ?thesis using e by simp
      next
        case False
        then have "hd ?Q' \<in> set ?Q'" by (rule hd_in_set)
        from lenQ'[OF this] lenQ'[OF e] show ?thesis by simp
      qed
    qed
    ultimately show ?thesis by (simp add: levels_def)
  qed
  have q3: "expanded m occ start goal ?Q' ?V'"
    unfolding expanded_def
  proof
    fix c' assume c': "c' \<in> ?V'"
    show "c' \<in> fst ` set ?Q' \<or>
          (1 < cheb c' goal \<and> (\<forall>d \<in> set dirs. passable m occ start (move c' d) \<longrightarrow> move c' d \<in> ?V'))"
    proof (cases "c' \<in> V")
      case False
      with c' obtain d where "d \<in> set F" "c' = move c d" by auto
      then have "c' \<in> fst ` set ?Q'" by force
      then show ?thesis ..
    next
      case True
      show ?thesis
      proof (cases "c' = c")
        case True
        have "\<forall>d \<in> set dirs. passable m occ start (move c d) \<longrightarrow> move c d \<in> ?V'"
          by (auto simp: F_def fresh_iff)
        with far True show ?thesis by simp
      next
        case False
        from ex \<open>c' \<in> V\<close> have "c' \<in> fst ` set ((c, p) # Q0)
            \<or> (1 < cheb c' goal \<and> (\<forall>d \<in> set dirs. passable m occ start (move c' d) \<longrightarrow> move c' d \<in> V))"
          by (auto simp: expanded_def)
        with False show ?thesis by auto
      qed
    qed
  qed
  have q4: "near m occ start ?Q' ?V'"
    unfolding near_def
  proof (intro impI allI)
    fix q assume ne: "?Q' \<noteq> []"
      and q: "valid_path m occ start start q \<and> length q \<le> length (snd (hd ?Q'))"
    have hdin: "hd ?Q' \<in> set ?Q'" using ne by (rule hd_in_set)
    show "walk start q \<in> ?V'"
    proof (cases "length q \<le> length p")
      case True
      then show ?thesis using nearV q by simp
    next
      case False
      with q lenQ'[OF hdin] have lq: "length q = length p + 1"
        and lh: "length (snd (hd ?Q')) = length p + 1" by auto
      have allQ0: "\<And>e. e \<in> set Q0 \<Longrightarrow> length (snd e) = length p + 1"
      proof -
        fix e assume e: "e \<in> set Q0"
        then have "Q0 \<noteq> []" by auto
        then have "hd ?Q' = hd Q0" by simp
        with lh have "length (snd (hd Q0)) = length p + 1" by simp
        moreover have "length (snd (hd Q0)) \<le> length (snd e)"
          using sortedQ0 e \<open>Q0 \<noteq> []\<close> by (cases Q0) auto
        ultimately show "length (snd e) = length p + 1" using lenQ0[OF e] by simp
      qed
      from lq obtain q0 d where qeq: "q = q0 @ [d]" and lq0: "length q0 = length p"
        by (cases q rule: rev_cases) auto
      from q qeq have vq0: "valid_path m occ start start q0"
        and dd: "d \<in> set dirs" and pd: "passable m occ start (move (walk start q0) d)"
        by (auto simp: valid_path_append)
      let ?c0 = "walk start q0"
      have c0V: "?c0 \<in> V" using nearV[OF vq0] lq0 by simp
      have wq: "walk start q = move ?c0 d" by (simp add: qeq walk_append)
      from ex c0V have "?c0 \<in> fst ` set ((c, p) # Q0)
            \<or> (1 < cheb ?c0 goal \<and> (\<forall>d \<in> set dirs. passable m occ start (move ?c0 d) \<longrightarrow> move ?c0 d \<in> V))"
        by (auto simp: expanded_def)
      then consider (popped) "?c0 = c" | (queued) "?c0 \<in> fst ` set Q0"
        | (finished) "\<forall>d \<in> set dirs. passable m occ start (move ?c0 d) \<longrightarrow> move ?c0 d \<in> V"
        by auto
      then show ?thesis
      proof cases
        case popped
        then show ?thesis using dd pd wq by (auto simp: F_def fresh_iff)
      next
        case queued
        then obtain e where e: "e \<in> set Q0" "fst e = ?c0" by auto
        then have "e \<in> set ((c, p) # Q0)" by simp
        then have "length (snd e) \<le> length q0"
          using qinv_min[OF qi _ vq0] e(2) by simp
        with allQ0[OF e(1)] lq0 show ?thesis by simp
      next
        case finished
        then show ?thesis using dd pd wq by auto
      qed
    qed
  qed
  show ?thesis using sV q1 q2 q3 q4 by (simp add: bfs_inv_def)
qed


lemma closed_walk:
  assumes "start \<in> V" and "expanded m occ start goal [] V"
    and "valid_path m occ start start q"
  shows "walk start q \<in> V"
  using assms(3)
proof (induction q rule: rev_induct)
  case Nil
  then show ?case using assms(1) by simp
next
  case (snoc d q)
  then have "walk start q \<in> V" and "d \<in> set dirs"
    and "passable m occ start (move (walk start q) d)"
    by (auto simp: valid_path_append)
  then show ?case using assms(2) by (auto simp: expanded_def walk_append)
qed

definition bfs_spec :: "gmap \<Rightarrow> cell set \<Rightarrow> cell \<Rightarrow> cell \<Rightarrow> cell option \<Rightarrow> bool" where
  "bfs_spec m occ start goal r \<longleftrightarrow>
     (case r of
        None \<Rightarrow> (\<forall>q. \<not> reaches m occ start goal q)
      | Some d \<Rightarrow> (\<exists>ds. reaches m occ start goal (d # ds)
                    \<and> (\<forall>q. reaches m occ start goal q \<longrightarrow> length (d # ds) \<le> length q)))"

lemma bfs_loop_correct:
  "bfs_inv m occ start goal Q V \<Longrightarrow> 1 < cheb start goal \<Longrightarrow>
   bfs_spec m occ start goal (bfs_loop m occ start goal Q V)"
proof (induction m occ start goal Q V rule: bfs_loop.induct)
  case (1 m occ start goal visited)
  then have sV: "start \<in> visited" and ex: "expanded m occ start goal [] visited"
    by (auto simp: bfs_inv_def)
  have "\<not> reaches m occ start goal q" for q
  proof
    assume r: "reaches m occ start goal q"
    then have "walk start q \<in> visited"
      using closed_walk[OF sV ex] by (simp add: reaches_def)
    with ex have "1 < cheb (walk start q) goal" by (auto simp: expanded_def)
    with r show False by (simp add: reaches_def)
  qed
  then show ?case by (simp add: bfs_spec_def)
next
  case (2 m occ start goal c path queue visited)
  note inv = \<open>bfs_inv m occ start goal ((c, path) # queue) visited\<close>
  from inv have qi: "qinv m occ start ((c, path) # queue) visited"
    and lv: "levels ((c, path) # queue)"
    and ex: "expanded m occ start goal ((c, path) # queue) visited"
    and nr: "near m occ start ((c, path) # queue) visited"
    by (auto simp: bfs_inv_def)
  from qi have vp: "valid_path m occ start start path" and wp: "walk start path = c"
    by (auto simp: qinv_def)
  show ?case
  proof (cases "cheb c goal \<le> 1")
    case True
    with wp "2.prems"(2) have "path \<noteq> []" by auto
    then obtain d ds where path: "path = d # ds" by (cases path) auto
    have r: "reaches m occ start goal (d # ds)"
      using vp wp True by (simp add: reaches_def path)
    have "length path \<le> length q" if rq: "reaches m occ start goal q" for q
    proof (rule ccontr)
      assume "\<not> length path \<le> length q"
      then have lt: "length q < length path" by simp
      from rq have vq: "valid_path m occ start start q" and aq: "cheb (walk start q) goal \<le> 1"
        by (auto simp: reaches_def)
      from nr vq lt have "walk start q \<in> visited" by (auto simp: near_def)
      with ex aq have "walk start q \<in> fst ` set ((c, path) # queue)"
        by (auto simp: expanded_def)
      then obtain e where e: "e \<in> set ((c, path) # queue)" "fst e = walk start q"
        unfolding image_iff by metis
      then have "length (snd e) \<le> length q" using qinv_min[OF qi _ vq] by simp
      moreover from lv e(1) have "length path \<le> length (snd e)"
        by (auto simp: levels_def)
      ultimately show False using lt by simp
    qed
    with r show ?thesis using True by (auto simp: bfs_spec_def path)
  next
    case False
    then have far: "1 < cheb c goal" by simp
    let ?F = "fresh m occ start c visited dirs"
    have ex_eq: "explore m occ start c path (visited, queue) =
        (visited \<union> move c ` set ?F, queue @ map (\<lambda>d. (move c d, path @ [d])) ?F)"
      by (rule explore_eq)
    have "bfs_inv m occ start goal (snd (explore m occ start c path (visited, queue)))
            (fst (explore m occ start c path (visited, queue)))"
      unfolding ex_eq fst_conv snd_conv by (rule bfs_inv_step[OF inv far])
    from "2.IH"[OF False refl this "2.prems"(2)] False
    show ?thesis by (simp add: Let_def)
  qed
qed


definition bfs_to_adjacent :: "world \<Rightarrow> cell \<Rightarrow> cell \<Rightarrow> cell option" where
  "bfs_to_adjacent w start goal =
     (if cheb start goal \<le> 1 then None
      else bfs_loop (get_map w) (occupied w) start goal [(start, [])] {start})"

definition adjacent_distance :: "cell \<Rightarrow> cell \<Rightarrow> int" where
  "adjacent_distance c goal = min_list (map (\<lambda>d. cheb c (move goal d)) ((0, 0) # dirs))"

definition floor_tile :: tile where
  "floor_tile = \<lparr>tile_name = ''FLOOR'', is_walkable = True, item = None\<rparr>"

definition wall_tile :: tile where
  "wall_tile = \<lparr>tile_name = ''WALL'', is_walkable = False, item = None\<rparr>"

definition station :: "string \<Rightarrow> tile" where
  "station n = \<lparr>tile_name = n, is_walkable = False, item = None\<rparr>"

definition detour_map :: gmap where
  "detour_map = \<lparr>width = 5, height = 3, tiles =
     [[floor_tile, floor_tile, floor_tile],
      [floor_tile, wall_tile, floor_tile],
      [floor_tile, wall_tile, floor_tile],
      [wall_tile, wall_tile, floor_tile],
      [floor_tile, station ''SUBMIT'', floor_tile]]\<rparr>"

definition detour_world :: world where
  "detour_world = \<lparr>get_map = detour_map, get_team_bot_ids = [0],
     get_bot_state = (\<lambda>b. if b = 0 then Some \<lparr>bot_x = 2, bot_y = 0, holding = None\<rparr> else None),
     get_orders = [], get_turn = 0, get_team_money = 0\<rparr>"

definition walled_map :: gmap where
  "walled_map = \<lparr>width = 4, height = 1, tiles =
     [[floor_tile], [wall_tile], [floor_tile], [station ''SHOP'']]\<rparr>"

definition walled_world :: world where
  "walled_world = \<lparr>get_map = walled_map, get_team_bot_ids = [0],
     get_bot_state = (\<lambda>b. if b = 0 then Some \<lparr>bot_x = 0, bot_y = 0, holding = None\<rparr> else None),
     get_orders = [], get_turn = 0, get_team_money = 0\<rparr>"

lemma bfs_to_adjacent_spec:
  "1 < cheb start goal \<Longrightarrow>
   bfs_spec (get_map w) (occupied w) start goal (bfs_to_adjacent w start goal)"
  using bfs_loop_correct[OF bfs_inv_init, of start goal "get_map w" "occupied w"]
  by (simp add: bfs_to_adjacent_def)

lemma detour_bfs: "bfs_to_adjacent detour_world (2,0) (4,1) = Some (-1,0)"
  by code_simp

lemma detour_path:
  "reaches (get_map detour_world) (occupied detour_world) (2,0) (4,1) [(-1,0),(-1,1),(1,1),(1,0),(1,0)]"
  by code_simp

lemma detour_far: "1 < cheb (2,0) (4,1)"
  by code_simp

lemma detour_adjacent:
  "cheb (3,2) (4,1) \<le> 1 \<and> bfs_to_adjacent detour_world (3,2) (4,1) = None
   \<and> reaches (get_map detour_world) (occupied detour_world) (3,2) (4,1) []"
  by code_simp

lemma walled_bfs: "1 < cheb (0,0) (3,0) \<and> bfs_to_adjacent walled_world (0,0) (3,0) = None"
  by code_simp

lemma walled_no_path: "\<forall>q. \<not> reaches (get_map walled_world) (occupied walled_world) (0,0) (3,0) q"
  using bfs_to_adjacent_spec[of "(0,0)" "(3,0)" walled_world] walled_bfs
  by (simp add: bfs_spec_def)

subsection \<open>C1: the step returned by the Navigator\<close>

text \<open>
  C1 as stated fails. On \<open>detour_map\<close> the only way out of the agent's pocket leads
  away from the goal: a walkable path exists, the Navigator returns the step \<open>(-1, 0)\<close>,
  and the Chebyshev distance to the goal grows from 2 to 3 (the distance to the nearest
  cell adjacent to the goal from 1 to 2). And from a start that is already adjacent, where
  the empty path is a walkable path, the Navigator returns \<open>None\<close>.
\<close>

theorem bfs_step_can_increase_chebyshev_distance:
  "reaches (get_map detour_world) (occupied detour_world) (2,0) (4,1) [(-1,0),(-1,1),(1,1),(1,0),(1,0)]
   \<and> bfs_to_adjacent detour_world (2,0) (4,1) = Some (-1,0)
   \<and> cheb (2,0) (4,1) = 2 \<and> cheb (move (2,0) (-1,0)) (4,1) = 3
   \<and> adjacent_distance (2,0) (4,1) = 1 \<and> adjacent_distance (move (2,0) (-1,0)) (4,1) = 2
   \<and> reaches (get_map detour_world) (occupied detour_world) (3,2) (4,1) []
   \<and> bfs_to_adjacent detour_world (3,2) (4,1) = None"
  by code_simp

text \<open>
  C1 as amended: the Navigator returns \<open>None\<close> if and only if the start is already
  within Chebyshev distance 1 of the goal or no walkable 8-connected path from the start to
  a cell adjacent to the goal exists; and when the start is not adjacent and such a path
  exists, it returns a step that is the first move of a shortest walkable path to a cell
  adjacent to the goal (so the length of the shortest walkable path decreases by one, which
  the Chebyshev distance need not do around obstacles).
\<close>

theorem bfs_first_step_of_shortest_path:
  "(bfs_to_adjacent w start goal = None \<longleftrightarrow>
      cheb start goal \<le> 1 \<or> (\<forall>q. \<not> reaches (get_map w) (occupied w) start goal q))
   \<and> (1 < cheb start goal \<and> (\<exists>q. reaches (get_map w) (occupied w) start goal q) \<longrightarrow>
       (\<exists>d ds. bfs_to_adjacent w start goal = Some d
          \<and> reaches (get_map w) (occupied w) start goal (d # ds)
          \<and> (\<forall>q. reaches (get_map w) (occupied w) start goal q \<longrightarrow> length (d # ds) \<le> length q)))"
proof (cases "cheb start goal \<le> 1")
  case True
  then show ?thesis by (simp add: bfs_to_adjacent_def)
next
  case False
  then have far: "1 < cheb start goal" by simp
  from bfs_to_adjacent_spec[OF far, of w] far show ?thesis
    by (cases "bfs_to_adjacent w start goal") (auto simp: bfs_spec_def)
qed

theorem bfs_first_step_of_shortest_path_witness:
  "1 < cheb (2,0) (4,1)
   \<and> reaches (get_map detour_world) (occupied detour_world) (2,0) (4,1) [(-1,0),(-1,1),(1,1),(1,0),(1,0)]
   \<and> bfs_to_adjacent detour_world (2,0) (4,1) = Some (-1,0)
   \<and> (\<exists>ds. reaches (get_map detour_world) (occupied detour_world) (2,0) (4,1) ((-1,0) # ds)
         \<and> length ((-1,0) # ds) \<le> 5)"
proof -
  let ?r = "reaches (get_map detour_world) (occupied detour_world) (2,0) (4,1)"
  have "\<exists>q. ?r q" using detour_path by blast
  with bfs_first_step_of_shortest_path[of detour_world "(2,0)" "(4,1)"] detour_far
  obtain d ds where d: "bfs_to_adjacent detour_world (2,0) (4,1) = Some d"
    and r: "?r (d # ds)" and least: "\<forall>q. ?r q \<longrightarrow> length (d # ds) \<le> length q"
    by blast
  from d detour_bfs have deq: "d = (-1,0)" by simp
  from least detour_path have "length (d # ds) \<le> 5" by fastforce
  with r deq have "\<exists>ds. ?r ((-1,0) # ds) \<and> length ((-1,0) # ds) \<le> 5" by blast
  with detour_far detour_path detour_bfs show ?thesis by simp
qed

subsection \<open>C9: \<open>None\<close> means adjacent as well as unreachable\<close>

text \<open>
  C9: the Navigator returns \<open>None\<close> when the start is within Chebyshev distance 1 of the
  goal, and also when no walkable path to a cell adjacent to the goal exists; a step is
  returned only when the start is not adjacent and a path exists. So \<open>None\<close> alone does
  not tell the caller which of the two holds.
\<close>

theorem bfs_none_is_adjacent_or_unreachable:
  "(cheb start goal \<le> 1 \<longrightarrow> bfs_to_adjacent w start goal = None)
   \<and> ((\<forall>q. \<not> reaches (get_map w) (occupied w) start goal q) \<longrightarrow> bfs_to_adjacent w start goal = None)
   \<and> (bfs_to_adjacent w start goal \<noteq> None \<longrightarrow>
        1 < cheb start goal \<and> (\<exists>q. reaches (get_map w) (occupied w) start goal q))"
proof (cases "cheb start goal \<le> 1")
  case True
  then show ?thesis by (simp add: bfs_to_adjacent_def)
next
  case False
  then have far: "1 < cheb start goal" by simp
  from bfs_to_adjacent_spec[OF far, of w] far show ?thesis
    by (cases "bfs_to_adjacent w start goal") (auto simp: bfs_spec_def)
qed

theorem bfs_none_is_adjacent_or_unreachable_witness:
  "cheb (3,2) (4,1) \<le> 1 \<and> bfs_to_adjacent detour_world (3,2) (4,1) = None
   \<and> (\<forall>q. \<not> reaches (get_map walled_world) (occupied walled_world) (0,0) (3,0) q)
   \<and> bfs_to_adjacent walled_world (0,0) (3,0) = None
   \<and> bfs_to_adjacent detour_world (2,0) (4,1) \<noteq> None
   \<and> 1 < cheb (2,0) (4,1)
   \<and> (\<exists>q. reaches (get_map detour_world) (occupied detour_world) (2,0) (4,1) q)"
proof -
  have a: "bfs_to_adjacent detour_world (3,2) (4,1) = None"
    using bfs_none_is_adjacent_or_unreachable[of "(3,2)" "(4,1)" detour_world] detour_adjacent
    by simp
  have b: "bfs_to_adjacent walled_world (0,0) (3,0) = None"
    using bfs_none_is_adjacent_or_unreachable[of "(0,0)" "(3,0)" walled_world] walled_no_path
    by simp
  have c: "1 < cheb (2,0) (4,1)
      \<and> (\<exists>q. reaches (get_map detour_world) (occupied detour_world) (2,0) (4,1) q)"
    using bfs_none_is_adjacent_or_unreachable[of "(2,0)" "(4,1)" detour_world] detour_bfs
    by simp
  from a b c detour_adjacent walled_no_path detour_bfs show ?thesis by simp
qed

section \<open>Commands\<close>

text \<open>
  \<^verbatim>\<open>FoodType\<close> comes from \<^verbatim>\<open>game_constants\<close>, which is not part of the repository: a
  member is read through \<^verbatim>\<open>name\<close>, \<^verbatim>\<open>can_chop\<close>, \<^verbatim>\<open>can_cook\<close> and \<^verbatim>\<open>buy_cost\<close>, and
  the enumeration itself is a parameter (a list of members) of every function that looks a
  name up in it.
\<close>

record food_type =
  ft_name :: string
  can_chop :: bool
  can_cook :: bool
  buy_cost :: int

text \<open>\<^verbatim>\<open>FoodType[food_name]\<close>; \<open>None\<close> is the \<^verbatim>\<open>KeyError\<close>.\<close>

definition lookup_food :: "food_type list \<Rightarrow> string \<Rightarrow> food_type option" where
  "lookup_food fts n = find (\<lambda>ft. ft_name ft = n) fts"

text \<open>The enumeration of the repository's own test (\<^verbatim>\<open>test_choose_order.py\<close>).\<close>

definition NOODLES :: food_type where
  "NOODLES = \<lparr>ft_name = ''NOODLES'', can_chop = False, can_cook = False, buy_cost = 5\<rparr>"

definition MEAT :: food_type where
  "MEAT = \<lparr>ft_name = ''MEAT'', can_chop = False, can_cook = True, buy_cost = 12\<rparr>"

definition VEGGIE :: food_type where
  "VEGGIE = \<lparr>ft_name = ''VEGGIE'', can_chop = True, can_cook = False, buy_cost = 3\<rparr>"

definition test_FoodType :: "food_type list" where
  "test_FoodType = [NOODLES, MEAT, VEGGIE]"

datatype kind =
    BuyIngredient | BuyPlate | ChopIngredient | CookIngredient | StartCooking | FinishCooking
  | StoreInBox | PlaceOnCounter | PickupFromBox | PickupPlateFromCounter | PlaceInBox
  | PickupPlateFromBox | AddFoodToPlate | SubmitOrder

text \<open>
  The string handed to \<^verbatim>\<open>check_progress\<close> is an f-string over the command's state (for
  the kinds that put it in), the bot's position and \<^verbatim>\<open>holding is not None\<close> (for the kinds
  that put it in). Two such strings of one kind are equal exactly when these components are,
  so the fingerprint is kept as the tuple of its components.
\<close>

type_synonym fingerprint = "string option \<times> int \<times> int \<times> bool option"

text \<open>
  A command object: the fields of \<^verbatim>\<open>Command.__init__\<close> and those the subclasses add.
  \<open>state\<close> and \<open>failed\<close> are \<open>None\<close> for a class that has no such attribute
  (\<^verbatim>\<open>hasattr(self, 'failed')\<close>); \<open>loc\<close> is the remembered target tile (\<^verbatim>\<open>shop_loc\<close>,
  \<^verbatim>\<open>counter_loc\<close>, \<^verbatim>\<open>cooker_loc\<close>, \<^verbatim>\<open>box_loc\<close>, \<^verbatim>\<open>plate_loc\<close>, \<^verbatim>\<open>food_loc\<close>,
  \<^verbatim>\<open>submit_loc\<close>: each class has one).
\<close>

record command =
  kind :: kind
  turn_count :: int
  max_turns :: int
  last_state :: "fingerprint option"
  stuck_counter :: int
  cmd_food :: "food_type option"
  state :: "string option"
  failed :: "bool option"
  food_burned :: bool
  loc :: "cell option"
  retries :: int
  max_retries :: int
  buy_attempted :: bool
  submitted :: bool
  initial_food_count :: "nat option"
  cmd_order_id :: "int option"

text \<open>\<^verbatim>\<open>Command.__init__\<close>, with the fields of the subclasses at the values nothing reads.\<close>

definition Command :: "kind \<Rightarrow> command" where
  "Command k = \<lparr>kind = k, turn_count = 0, max_turns = 100, last_state = None, stuck_counter = 0,
     cmd_food = None, state = None, failed = None, food_burned = False, loc = None,
     retries = 0, max_retries = 0, buy_attempted = False, submitted = False,
     initial_food_count = None, cmd_order_id = None\<rparr>"

definition BuyIngredientCommand :: "food_type \<Rightarrow> command" where
  "BuyIngredientCommand ft = (Command BuyIngredient)\<lparr>cmd_food := Some ft, max_turns := 30\<rparr>"

definition BuyPlateCommand :: command where
  "BuyPlateCommand = (Command BuyPlate)\<lparr>max_turns := 30\<rparr>"

definition ChopIngredientCommand :: command where
  "ChopIngredientCommand = (Command ChopIngredient)
     \<lparr>state := Some ''navigating'', max_retries := 5, max_turns := 40, failed := Some False\<rparr>"

definition CookIngredientCommand :: command where
  "CookIngredientCommand = (Command CookIngredient)\<lparr>state := Some ''navigating'', max_turns := 150\<rparr>"

definition StartCookingCommand :: command where
  "StartCookingCommand = (Command StartCooking)\<lparr>state := Some ''navigating''\<rparr>"

definition FinishCookingCommand :: "food_type \<Rightarrow> command" where
  "FinishCookingCommand ft = (Command FinishCooking)
     \<lparr>cmd_food := Some ft, state := Some ''waiting'', max_turns := 80, food_burned := False\<rparr>"

definition StoreInBoxCommand :: command where
  "StoreInBoxCommand = Command StoreInBox"

definition PlaceOnCounterCommand :: command where
  "PlaceOnCounterCommand = (Command PlaceOnCounter)\<lparr>max_retries := 5, max_turns := 40\<rparr>"

definition PickupFromBoxCommand :: "food_type \<Rightarrow> command" where
  "PickupFromBoxCommand ft = (Command PickupFromBox)\<lparr>cmd_food := Some ft\<rparr>"

definition PickupPlateFromCounterCommand :: command where
  "PickupPlateFromCounterCommand = (Command PickupPlateFromCounter)\<lparr>max_turns := 40, max_retries := 3\<rparr>"

definition PlaceInBoxCommand :: command where
  "PlaceInBoxCommand = (Command PlaceInBox)\<lparr>max_retries := 5\<rparr>"

definition PickupPlateFromBoxCommand :: command where
  "PickupPlateFromBoxCommand = Command PickupPlateFromBox"

definition AddFoodToPlateCommand :: "food_type \<Rightarrow> command" where
  "AddFoodToPlateCommand ft = (Command AddFoodToPlate)
     \<lparr>cmd_food := Some ft, state := Some ''navigating'', max_retries := 5, max_turns := 50\<rparr>"

definition SubmitOrderCommand :: "int \<Rightarrow> command" where
  "SubmitOrderCommand oid = (Command SubmitOrder)\<lparr>cmd_order_id := Some oid\<rparr>"

subsection \<open>Stuck detection\<close>

definition is_stuck :: "command \<Rightarrow> bool" where
  "is_stuck c =
     (if turn_count c > max_turns c then True
      else if stuck_counter c > 20 then True
      else if failed c = Some True then True
      else False)"

definition check_progress :: "command \<Rightarrow> fingerprint \<Rightarrow> command" where
  "check_progress c current_state =
     c\<lparr>stuck_counter := (if Some current_state = last_state c then stuck_counter c + 1 else 0),
       last_state := Some current_state\<rparr>"

subsection \<open>Completion\<close>

text \<open>What the \<^verbatim>\<open>is_complete\<close> methods test on \<^verbatim>\<open>bot_state.get('holding')\<close>.\<close>

definition holds_plate :: "item option \<Rightarrow> bool" where
  "holds_plate h = (case h of Some (Plate _ _) \<Rightarrow> True | _ \<Rightarrow> False)"

definition holds_food_where :: "(food \<Rightarrow> bool) \<Rightarrow> item option \<Rightarrow> bool" where
  "holds_food_where P h = (case h of Some (Food f) \<Rightarrow> P f | _ \<Rightarrow> False)"

text \<open>
  \<^verbatim>\<open>is_complete(controller, bot_id)\<close>, one case per class.
  \<^verbatim>\<open>PickupFromBoxCommand\<close> asks \<^verbatim>\<open>hasattr(holding, 'food_name')\<close> of the dict the
  controller returns, which has no such attribute: its result is never true.
\<close>

definition is_complete :: "world \<Rightarrow> int \<Rightarrow> command \<Rightarrow> bool" where
  "is_complete w bot_id c =
     (case kind c of
        BuyIngredient \<Rightarrow>
          (case get_bot_state w bot_id of None \<Rightarrow> False
           | Some st \<Rightarrow> holds_food_where (\<lambda>f. Some (food_name f) = map_option ft_name (cmd_food c)) (holding st))
      | BuyPlate \<Rightarrow>
          (case get_bot_state w bot_id of None \<Rightarrow> False | Some st \<Rightarrow> holds_plate (holding st))
      | ChopIngredient \<Rightarrow>
          (if state c \<noteq> Some ''done'' then False
           else case get_bot_state w bot_id of None \<Rightarrow> False
           | Some st \<Rightarrow> holds_food_where chopped (holding st))
      | CookIngredient \<Rightarrow>
          (if state c \<noteq> Some ''done'' then False
           else case get_bot_state w bot_id of None \<Rightarrow> False
           | Some st \<Rightarrow> holds_food_where (\<lambda>f. cooked_stage f = 1) (holding st))
      | StartCooking \<Rightarrow> state c = Some ''done''
      | FinishCooking \<Rightarrow>
          (if state c \<noteq> Some ''done'' then False
           else if food_burned c then True
           else case get_bot_state w bot_id of None \<Rightarrow> False
           | Some st \<Rightarrow> holds_food_where (\<lambda>f. cooked_stage f = 1) (holding st))
      | StoreInBox \<Rightarrow>
          (case get_bot_state w bot_id of None \<Rightarrow> False | Some st \<Rightarrow> holding st = None)
      | PlaceOnCounter \<Rightarrow>
          (case get_bot_state w bot_id of None \<Rightarrow> False | Some st \<Rightarrow> holding st = None)
      | PickupFromBox \<Rightarrow> False
      | PickupPlateFromCounter \<Rightarrow>
          (case get_bot_state w bot_id of None \<Rightarrow> False | Some st \<Rightarrow> holds_plate (holding st))
      | PlaceInBox \<Rightarrow>
          (case get_bot_state w bot_id of None \<Rightarrow> False | Some st \<Rightarrow> holding st = None)
      | PickupPlateFromBox \<Rightarrow>
          (case get_bot_state w bot_id of None \<Rightarrow> False | Some st \<Rightarrow> holds_plate (holding st))
      | AddFoodToPlate \<Rightarrow> state c = Some ''done''
      | SubmitOrder \<Rightarrow>
          (case get_bot_state w bot_id of None \<Rightarrow> False | Some st \<Rightarrow> holding st = None))"

section \<open>Recipe planner\<close>

text \<open>The cells of the map in the order of the scans \<^verbatim>\<open>for x in range(m.width): for y in
  range(m.height)\<close>.\<close>

definition all_cells :: "gmap \<Rightarrow> cell list" where
  "all_cells m = concat (map (\<lambda>x. map (\<lambda>y. (x, y)) [0 .. height m - 1]) [0 .. width m - 1])"

definition count_tiles :: "world \<Rightarrow> string \<Rightarrow> nat" where
  "count_tiles w n = length (filter (\<lambda>c. tile_name (tile_at (get_map w) c) = n) (all_cells (get_map w)))"

text \<open>The loop that parses \<^verbatim>\<open>order["required"]\<close>: an unknown name is skipped.\<close>

definition required_foods :: "food_type list \<Rightarrow> order \<Rightarrow> food_type list" where
  "required_foods fts ord = List.map_filter (lookup_food fts) (required ord)"

definition use_box_for_plate :: "world option \<Rightarrow> bool" where
  "use_box_for_plate controller =
     (case controller of None \<Rightarrow> False
      | Some w \<Rightarrow> count_tiles w ''COUNTER'' = 1 \<and> count_tiles w ''BOX'' \<ge> 1)"

definition add_ingredient_to_plate_sequence :: "bool \<Rightarrow> food_type \<Rightarrow> command list" where
  "add_ingredient_to_plate_sequence use_box ft =
     [PlaceOnCounterCommand,
      (if use_box then PickupPlateFromBoxCommand else PickupPlateFromCounterCommand),
      AddFoodToPlateCommand ft,
      (if use_box then PlaceInBoxCommand else PlaceOnCounterCommand)]"

definition use_parallel_cooking :: "food_type list \<Rightarrow> order \<Rightarrow> world option \<Rightarrow> bool" where
  "use_parallel_cooking fts ord controller =
     (filter can_cook (required_foods fts ord) \<noteq> []
      \<and> \<not> use_box_for_plate controller
      \<and> length (filter (\<lambda>f. \<not> can_cook f) (required_foods fts ord)) \<le> 1)"

text \<open>The bodies of the three loops over ingredients.\<close>

definition buy_and_chop :: "food_type \<Rightarrow> command list" where
  "buy_and_chop ft = BuyIngredientCommand ft # (if can_chop ft then [ChopIngredientCommand] else [])"

definition non_cooking_steps :: "bool \<Rightarrow> food_type \<Rightarrow> command list" where
  "non_cooking_steps use_box ft = buy_and_chop ft @ add_ingredient_to_plate_sequence use_box ft"

definition later_cooking_steps :: "bool \<Rightarrow> food_type \<Rightarrow> command list" where
  "later_cooking_steps use_box ft =
     buy_and_chop ft @ [CookIngredientCommand] @ add_ingredient_to_plate_sequence use_box ft"

definition sequential_steps :: "bool \<Rightarrow> food_type \<Rightarrow> command list" where
  "sequential_steps use_box ft =
     buy_and_chop ft @ (if can_cook ft then [CookIngredientCommand] else [])
       @ add_ingredient_to_plate_sequence use_box ft"

definition build_commands_for_order :: "food_type list \<Rightarrow> order \<Rightarrow> world option \<Rightarrow> command list" where
  "build_commands_for_order fts ord controller =
     (let foods = required_foods fts ord;
          cooking_foods = filter can_cook foods;
          non_cooking_foods = filter (\<lambda>f. \<not> can_cook f) foods;
          use_box = use_box_for_plate controller
      in [BuyPlateCommand, (if use_box then PlaceInBoxCommand else PlaceOnCounterCommand)]
         @ (if use_parallel_cooking fts ord controller
            then (case cooking_foods of
                    [] \<Rightarrow> []
                  | first_cooking # rest \<Rightarrow>
                      buy_and_chop first_cooking @ [StartCookingCommand]
                      @ concat (map (non_cooking_steps use_box) non_cooking_foods)
                      @ [FinishCookingCommand first_cooking]
                      @ add_ingredient_to_plate_sequence use_box first_cooking
                      @ concat (map (later_cooking_steps use_box) rest))
            else concat (map (sequential_steps use_box) foods))
         @ [(if use_box then PickupPlateFromBoxCommand else PickupPlateFromCounterCommand),
            SubmitOrderCommand (order_id ord)])"

lemma kind_simps:
  "kind (Command k) = k"
  "kind (BuyIngredientCommand ft) = BuyIngredient"
  "kind BuyPlateCommand = BuyPlate"
  "kind ChopIngredientCommand = ChopIngredient"
  "kind CookIngredientCommand = CookIngredient"
  "kind StartCookingCommand = StartCooking"
  "kind (FinishCookingCommand ft) = FinishCooking"
  "kind StoreInBoxCommand = StoreInBox"
  "kind PlaceOnCounterCommand = PlaceOnCounter"
  "kind (PickupFromBoxCommand ft) = PickupFromBox"
  "kind PickupPlateFromCounterCommand = PickupPlateFromCounter"
  "kind PlaceInBoxCommand = PlaceInBox"
  "kind PickupPlateFromBoxCommand = PickupPlateFromBox"
  "kind (AddFoodToPlateCommand ft) = AddFoodToPlate"
  "kind (SubmitOrderCommand oid) = SubmitOrder"
  by (simp_all add: Command_def BuyIngredientCommand_def BuyPlateCommand_def
      ChopIngredientCommand_def CookIngredientCommand_def StartCookingCommand_def
      FinishCookingCommand_def StoreInBoxCommand_def PlaceOnCounterCommand_def
      PickupFromBoxCommand_def PickupPlateFromCounterCommand_def PlaceInBoxCommand_def
      PickupPlateFromBoxCommand_def AddFoodToPlateCommand_def SubmitOrderCommand_def)

lemma kinds_add_ingredient:
  "map kind (add_ingredient_to_plate_sequence ub ft) =
     [PlaceOnCounter, if ub then PickupPlateFromBox else PickupPlateFromCounter, AddFoodToPlate,
      if ub then PlaceInBox else PlaceOnCounter]"
  by (simp add: add_ingredient_to_plate_sequence_def kind_simps)

lemma kinds_buy_and_chop:
  "map kind (buy_and_chop ft) = BuyIngredient # (if can_chop ft then [ChopIngredient] else [])"
  by (simp add: buy_and_chop_def kind_simps)

lemma kinds_sequential_steps:
  "map kind (sequential_steps ub ft) =
     BuyIngredient # (if can_chop ft then [ChopIngredient] else [])
       @ (if can_cook ft then [CookIngredient] else [])
       @ [PlaceOnCounter, if ub then PickupPlateFromBox else PickupPlateFromCounter, AddFoodToPlate,
          if ub then PlaceInBox else PlaceOnCounter]"
  by (simp add: sequential_steps_def kinds_add_ingredient kinds_buy_and_chop kind_simps)

lemma no_start_in_sequential_steps:
  "StartCooking \<notin> set (map kind (sequential_steps ub ft))"
  unfolding kinds_sequential_steps by auto

lemma no_start_in_sequential:
  "StartCooking \<notin> set (map kind (concat (map (sequential_steps ub) fs)))"
proof (induction fs)
  case Nil
  then show ?case by simp
next
  case (Cons f fs)
  then show ?case using no_start_in_sequential_steps[of ub f] by simp
qed

lemma build_sequential:
  "\<not> use_parallel_cooking fts ord c \<Longrightarrow>
   build_commands_for_order fts ord c =
     [BuyPlateCommand, (if use_box_for_plate c then PlaceInBoxCommand else PlaceOnCounterCommand)]
     @ concat (map (sequential_steps (use_box_for_plate c)) (required_foods fts ord))
     @ [(if use_box_for_plate c then PickupPlateFromBoxCommand else PickupPlateFromCounterCommand),
        SubmitOrderCommand (order_id ord)]"
  by (simp add: build_commands_for_order_def Let_def)

lemma build_parallel:
  "use_parallel_cooking fts ord c \<Longrightarrow>
   \<exists>first_cooking rest.
     filter can_cook (required_foods fts ord) = first_cooking # rest \<and>
     build_commands_for_order fts ord c =
       [BuyPlateCommand, PlaceOnCounterCommand]
       @ buy_and_chop first_cooking @ [StartCookingCommand]
       @ concat (map (non_cooking_steps False) (filter (\<lambda>f. \<not> can_cook f) (required_foods fts ord)))
       @ [FinishCookingCommand first_cooking]
       @ add_ingredient_to_plate_sequence False first_cooking
       @ concat (map (later_cooking_steps False) rest)
       @ [PickupPlateFromCounterCommand, SubmitOrderCommand (order_id ord)]"
  by (cases "filter can_cook (required_foods fts ord)")
     (simp_all add: build_commands_for_order_def Let_def use_parallel_cooking_def)

lemma start_iff_parallel:
  "StartCooking \<in> set (map kind (build_commands_for_order fts ord c)) \<longleftrightarrow> use_parallel_cooking fts ord c"
proof (cases "use_parallel_cooking fts ord c")
  case True
  from build_parallel[OF True] obtain f r where
    "build_commands_for_order fts ord c =
       [BuyPlateCommand, PlaceOnCounterCommand]
       @ buy_and_chop f @ [StartCookingCommand]
       @ concat (map (non_cooking_steps False) (filter (\<lambda>f. \<not> can_cook f) (required_foods fts ord)))
       @ [FinishCookingCommand f]
       @ add_ingredient_to_plate_sequence False f
       @ concat (map (later_cooking_steps False) r)
       @ [PickupPlateFromCounterCommand, SubmitOrderCommand (order_id ord)]" by blast
  then have "StartCookingCommand \<in> set (build_commands_for_order fts ord c)" by simp
  then have "kind StartCookingCommand \<in> kind ` set (build_commands_for_order fts ord c)"
    by (rule imageI)
  with True show ?thesis by (simp add: kind_simps)
next
  case False
  have "StartCooking \<notin> set (map kind (build_commands_for_order fts ord c))"
    unfolding build_sequential[OF False] map_append set_append
    using no_start_in_sequential[of "use_box_for_plate c" "required_foods fts ord"]
    by (simp add: kind_simps)
  with False show ?thesis by simp
qed

subsection \<open>Example kitchens and orders\<close>

definition one_bot_world :: "gmap \<Rightarrow> cell \<Rightarrow> item option \<Rightarrow> order list \<Rightarrow> int \<Rightarrow> world" where
  "one_bot_world m pos h os t = \<lparr>get_map = m, get_team_bot_ids = [0],
     get_bot_state = (\<lambda>b. if b = 0 then Some \<lparr>bot_x = fst pos, bot_y = snd pos, holding = h\<rparr> else None),
     get_orders = os, get_turn = t, get_team_money = 100\<rparr>"

text \<open>A kitchen with two counters and a box, and a galley with one counter and a box.\<close>

definition kitchen_map :: gmap where
  "kitchen_map = \<lparr>width = 5, height = 3, tiles =
     [[station ''SHOP'', floor_tile, station ''TRASH''],
      [station ''COUNTER'', floor_tile, station ''BOX''],
      [station ''COUNTER'', floor_tile, floor_tile],
      [station ''COOKER'', floor_tile, floor_tile],
      [station ''SUBMIT'', floor_tile, floor_tile]]\<rparr>"

definition galley_map :: gmap where
  "galley_map = \<lparr>width = 5, height = 3, tiles =
     [[station ''SHOP'', floor_tile, station ''TRASH''],
      [station ''COUNTER'', floor_tile, station ''BOX''],
      [wall_tile, floor_tile, floor_tile],
      [station ''COOKER'', floor_tile, floor_tile],
      [station ''SUBMIT'', floor_tile, floor_tile]]\<rparr>"

definition kitchen_world :: world where
  "kitchen_world = one_bot_world kitchen_map (2, 1) None [] 0"

definition galley_world :: world where
  "galley_world = one_bot_world galley_map (2, 1) None [] 0"

definition mk_order :: "int \<Rightarrow> string list \<Rightarrow> int \<Rightarrow> int \<Rightarrow> int \<Rightarrow> order" where
  "mk_order oid req r p e = \<lparr>order_id = oid, is_active = True, required = req,
     reward = Some r, penalty = Some p, expires_turn = Some e\<rparr>"

definition meat_noodles_meat_order :: order where
  "meat_noodles_meat_order = mk_order 7 [''MEAT'', ''NOODLES'', ''MEAT''] 120 30 400"

definition noodles_meat_order :: order where
  "noodles_meat_order = mk_order 1 [''NOODLES'', ''MEAT''] 120 30 200"

definition salad_meat_order :: order where
  "salad_meat_order = mk_order 4 [''NOODLES'', ''VEGGIE'', ''MEAT''] 120 30 400"

subsection \<open>C3: when the compiler interleaves\<close>

text \<open>
  C3 as stated fails: the order MEAT, NOODLES, MEAT has two items that need cooking, and in a
  kitchen with two counters its plan is not strictly sequential. The first MEAT is bought and
  put on the cooker (\<^verbatim>\<open>StartCooking\<close>); while it cooks the NOODLES are bought and
  added to the plate; only then is the first MEAT taken off the cooker
  (\<^verbatim>\<open>FinishCooking\<close>) and plated. The second MEAT follows, bought, cooked and plated
  in turn.
\<close>

theorem two_cooking_items_are_interleaved:
  "filter can_cook (required_foods test_FoodType meat_noodles_meat_order) = [MEAT, MEAT]
   \<and> build_commands_for_order test_FoodType meat_noodles_meat_order (Some kitchen_world) =
       [BuyPlateCommand, PlaceOnCounterCommand,
        BuyIngredientCommand MEAT, StartCookingCommand,
        BuyIngredientCommand NOODLES,
        PlaceOnCounterCommand, PickupPlateFromCounterCommand, AddFoodToPlateCommand NOODLES,
        PlaceOnCounterCommand,
        FinishCookingCommand MEAT,
        PlaceOnCounterCommand, PickupPlateFromCounterCommand, AddFoodToPlateCommand MEAT,
        PlaceOnCounterCommand,
        BuyIngredientCommand MEAT, CookIngredientCommand,
        PlaceOnCounterCommand, PickupPlateFromCounterCommand, AddFoodToPlateCommand MEAT,
        PlaceOnCounterCommand,
        PickupPlateFromCounterCommand, SubmitOrderCommand 7]
   \<and> map kind (build_commands_for_order test_FoodType meat_noodles_meat_order (Some kitchen_world)) =
       [BuyPlate, PlaceOnCounter,
        BuyIngredient, StartCooking,
        BuyIngredient, PlaceOnCounter, PickupPlateFromCounter, AddFoodToPlate, PlaceOnCounter,
        FinishCooking, PlaceOnCounter, PickupPlateFromCounter, AddFoodToPlate, PlaceOnCounter,
        BuyIngredient, CookIngredient,
        PlaceOnCounter, PickupPlateFromCounter, AddFoodToPlate, PlaceOnCounter,
        PickupPlateFromCounter, SubmitOrder]"
  by code_simp

text \<open>
  C3 as amended (\<^verbatim>\<open>command_bot5\<close>): the plan starts a cook early (it holds a
  \<^verbatim>\<open>StartCooking\<close>) exactly when at least one required item needs cooking, the plate is
  staged on a counter (not in a box) and at most one required item needs no cooking; the
  number of items that need cooking is not tested. The plan is then: the first item that needs
  cooking is bought, chopped and started; the items that need no cooking (none or one) are
  bought, chopped and plated while it cooks; the first cooking item is finished and plated;
  every further cooking item is bought, chopped, cooked and plated in turn. In every other
  case the plan is the strictly sequential one.
\<close>

theorem interleaved_iff_parallel_condition:
  "(StartCooking \<in> set (map kind (build_commands_for_order fts ord c)) \<longleftrightarrow>
      filter can_cook (required_foods fts ord) \<noteq> [] \<and> \<not> use_box_for_plate c
      \<and> length (filter (\<lambda>f. \<not> can_cook f) (required_foods fts ord)) \<le> 1)
   \<and> (StartCooking \<notin> set (map kind (build_commands_for_order fts ord c)) \<longrightarrow>
        build_commands_for_order fts ord c =
          [BuyPlateCommand, (if use_box_for_plate c then PlaceInBoxCommand else PlaceOnCounterCommand)]
          @ concat (map (sequential_steps (use_box_for_plate c)) (required_foods fts ord))
          @ [(if use_box_for_plate c then PickupPlateFromBoxCommand else PickupPlateFromCounterCommand),
             SubmitOrderCommand (order_id ord)])
   \<and> (StartCooking \<in> set (map kind (build_commands_for_order fts ord c)) \<longrightarrow>
        (\<exists>first_cooking rest.
           filter can_cook (required_foods fts ord) = first_cooking # rest \<and>
           build_commands_for_order fts ord c =
             [BuyPlateCommand, PlaceOnCounterCommand]
             @ buy_and_chop first_cooking @ [StartCookingCommand]
             @ concat (map (non_cooking_steps False) (filter (\<lambda>f. \<not> can_cook f) (required_foods fts ord)))
             @ [FinishCookingCommand first_cooking]
             @ add_ingredient_to_plate_sequence False first_cooking
             @ concat (map (later_cooking_steps False) rest)
             @ [PickupPlateFromCounterCommand, SubmitOrderCommand (order_id ord)]))"
proof (intro conjI impI)
  show "StartCooking \<in> set (map kind (build_commands_for_order fts ord c)) \<longleftrightarrow>
      filter can_cook (required_foods fts ord) \<noteq> [] \<and> \<not> use_box_for_plate c
      \<and> length (filter (\<lambda>f. \<not> can_cook f) (required_foods fts ord)) \<le> 1"
    unfolding start_iff_parallel by (simp add: use_parallel_cooking_def)
next
  assume "StartCooking \<notin> set (map kind (build_commands_for_order fts ord c))"
  then have "\<not> use_parallel_cooking fts ord c" unfolding start_iff_parallel .
  then show "build_commands_for_order fts ord c =
          [BuyPlateCommand, (if use_box_for_plate c then PlaceInBoxCommand else PlaceOnCounterCommand)]
          @ concat (map (sequential_steps (use_box_for_plate c)) (required_foods fts ord))
          @ [(if use_box_for_plate c then PickupPlateFromBoxCommand else PickupPlateFromCounterCommand),
             SubmitOrderCommand (order_id ord)]"
    by (rule build_sequential)
next
  assume "StartCooking \<in> set (map kind (build_commands_for_order fts ord c))"
  then have "use_parallel_cooking fts ord c" unfolding start_iff_parallel .
  then show "\<exists>first_cooking rest.
           filter can_cook (required_foods fts ord) = first_cooking # rest \<and>
           build_commands_for_order fts ord c =
             [BuyPlateCommand, PlaceOnCounterCommand]
             @ buy_and_chop first_cooking @ [StartCookingCommand]
             @ concat (map (non_cooking_steps False) (filter (\<lambda>f. \<not> can_cook f) (required_foods fts ord)))
             @ [FinishCookingCommand first_cooking]
             @ add_ingredient_to_plate_sequence False first_cooking
             @ concat (map (later_cooking_steps False) rest)
             @ [PickupPlateFromCounterCommand, SubmitOrderCommand (order_id ord)]"
    by (rule build_parallel)
qed

lemma salad_meat_kinds:
  "map kind (build_commands_for_order test_FoodType salad_meat_order (Some kitchen_world)) =
     [BuyPlate, PlaceOnCounter,
      BuyIngredient, PlaceOnCounter, PickupPlateFromCounter, AddFoodToPlate, PlaceOnCounter,
      BuyIngredient, ChopIngredient, PlaceOnCounter, PickupPlateFromCounter, AddFoodToPlate, PlaceOnCounter,
      BuyIngredient, CookIngredient, PlaceOnCounter, PickupPlateFromCounter, AddFoodToPlate, PlaceOnCounter,
      PickupPlateFromCounter, SubmitOrder]"
  by code_simp

lemma noodles_meat_kinds:
  "map kind (build_commands_for_order test_FoodType noodles_meat_order (Some kitchen_world)) =
     [BuyPlate, PlaceOnCounter,
      BuyIngredient, StartCooking,
      BuyIngredient, PlaceOnCounter, PickupPlateFromCounter, AddFoodToPlate, PlaceOnCounter,
      FinishCooking, PlaceOnCounter, PickupPlateFromCounter, AddFoodToPlate, PlaceOnCounter,
      PickupPlateFromCounter, SubmitOrder]"
  by code_simp

theorem interleaved_iff_parallel_condition_witness:
  "StartCooking \<notin> set (map kind (build_commands_for_order test_FoodType salad_meat_order (Some kitchen_world)))
   \<and> build_commands_for_order test_FoodType salad_meat_order (Some kitchen_world) =
       [BuyPlateCommand, PlaceOnCounterCommand]
       @ concat (map (sequential_steps False) [NOODLES, VEGGIE, MEAT])
       @ [PickupPlateFromCounterCommand, SubmitOrderCommand 4]
   \<and> StartCooking \<in> set (map kind (build_commands_for_order test_FoodType noodles_meat_order (Some kitchen_world)))
   \<and> length (filter (\<lambda>f. \<not> can_cook f) (required_foods test_FoodType noodles_meat_order)) \<le> 1"
proof -
  have ub: "\<not> use_box_for_plate (Some kitchen_world)" by code_simp
  have foods: "required_foods test_FoodType salad_meat_order = [NOODLES, VEGGIE, MEAT]" by code_simp
  have oid: "order_id salad_meat_order = 4" by code_simp
  have a: "StartCooking \<notin> set (map kind (build_commands_for_order test_FoodType salad_meat_order (Some kitchen_world)))"
    unfolding salad_meat_kinds by simp
  have b: "StartCooking \<in> set (map kind (build_commands_for_order test_FoodType noodles_meat_order (Some kitchen_world)))"
    unfolding noodles_meat_kinds by simp
  note inst = interleaved_iff_parallel_condition[of test_FoodType _ "Some kitchen_world"]
  from inst[of salad_meat_order] a ub foods oid
  have "build_commands_for_order test_FoodType salad_meat_order (Some kitchen_world) =
       [BuyPlateCommand, PlaceOnCounterCommand]
       @ concat (map (sequential_steps False) [NOODLES, VEGGIE, MEAT])
       @ [PickupPlateFromCounterCommand, SubmitOrderCommand 4]" by simp
  moreover from inst[of noodles_meat_order] b
  have "length (filter (\<lambda>f. \<not> can_cook f) (required_foods test_FoodType noodles_meat_order)) \<le> 1"
    by blast
  ultimately show ?thesis using a b by blast
qed

subsection \<open>C8: the plate is staged first and picked up last\<close>

text \<open>
  C8: every compiled plan begins with a buy-plate command and a command that stages the
  plate, in a box exactly when the map has exactly one counter and at least one box and on a
  counter otherwise, and ends with the command that picks the plate up from that same kind of
  place, followed by the submit command for the order.
\<close>

theorem plan_stages_plate_first_and_submits_last:
  "\<exists>stage middle pickup.
     build_commands_for_order fts ord (Some w) =
       BuyPlateCommand # stage # middle @ [pickup, SubmitOrderCommand (order_id ord)]
     \<and> kind BuyPlateCommand = BuyPlate
     \<and> kind (SubmitOrderCommand (order_id ord)) = SubmitOrder
     \<and> (kind stage = PlaceInBox \<longleftrightarrow> count_tiles w ''COUNTER'' = 1 \<and> 1 \<le> count_tiles w ''BOX'')
     \<and> (kind stage = PlaceOnCounter \<longleftrightarrow> \<not> (count_tiles w ''COUNTER'' = 1 \<and> 1 \<le> count_tiles w ''BOX''))
     \<and> (kind pickup = PickupPlateFromBox \<longleftrightarrow> count_tiles w ''COUNTER'' = 1 \<and> 1 \<le> count_tiles w ''BOX'')
     \<and> (kind pickup = PickupPlateFromCounter \<longleftrightarrow> \<not> (count_tiles w ''COUNTER'' = 1 \<and> 1 \<le> count_tiles w ''BOX''))"
proof -
  let ?ub = "count_tiles w ''COUNTER'' = 1 \<and> 1 \<le> count_tiles w ''BOX''"
  obtain middle where "build_commands_for_order fts ord (Some w) =
       BuyPlateCommand # (if ?ub then PlaceInBoxCommand else PlaceOnCounterCommand) # middle
       @ [(if ?ub then PickupPlateFromBoxCommand else PickupPlateFromCounterCommand),
          SubmitOrderCommand (order_id ord)]"
    by (simp add: build_commands_for_order_def Let_def use_box_for_plate_def)
  then show ?thesis
    by (intro exI[of _ "if ?ub then PlaceInBoxCommand else PlaceOnCounterCommand"] exI[of _ middle]
        exI[of _ "if ?ub then PickupPlateFromBoxCommand else PickupPlateFromCounterCommand"])
       (simp add: kind_simps)
qed

theorem plan_stages_plate_first_and_submits_last_witness:
  "count_tiles galley_world ''COUNTER'' = 1 \<and> count_tiles galley_world ''BOX'' = 1
   \<and> count_tiles kitchen_world ''COUNTER'' = 2
   \<and> (\<exists>stage middle pickup.
        build_commands_for_order test_FoodType noodles_meat_order (Some galley_world) =
          BuyPlateCommand # stage # middle @ [pickup, SubmitOrderCommand 1]
        \<and> kind stage = PlaceInBox \<and> kind pickup = PickupPlateFromBox)
   \<and> (\<exists>stage middle pickup.
        build_commands_for_order test_FoodType noodles_meat_order (Some kitchen_world) =
          BuyPlateCommand # stage # middle @ [pickup, SubmitOrderCommand 1]
        \<and> kind stage = PlaceOnCounter \<and> kind pickup = PickupPlateFromCounter)"
proof -
  have g: "count_tiles galley_world ''COUNTER'' = 1 \<and> count_tiles galley_world ''BOX'' = 1"
    by code_simp
  have k: "count_tiles kitchen_world ''COUNTER'' = 2" by code_simp
  have oid: "order_id noodles_meat_order = 1" by code_simp
  from plan_stages_plate_first_and_submits_last[of test_FoodType noodles_meat_order galley_world] g oid
  have a: "\<exists>stage middle pickup.
        build_commands_for_order test_FoodType noodles_meat_order (Some galley_world) =
          BuyPlateCommand # stage # middle @ [pickup, SubmitOrderCommand 1]
        \<and> kind stage = PlaceInBox \<and> kind pickup = PickupPlateFromBox"
    by simp blast
  from plan_stages_plate_first_and_submits_last[of test_FoodType noodles_meat_order kitchen_world] k oid
  have b: "\<exists>stage middle pickup.
        build_commands_for_order test_FoodType noodles_meat_order (Some kitchen_world) =
          BuyPlateCommand # stage # middle @ [pickup, SubmitOrderCommand 1]
        \<and> kind stage = PlaceOnCounter \<and> kind pickup = PickupPlateFromCounter"
    by simp blast
  from g k a b show ?thesis by blast
qed

subsection \<open>C4: what \<open>is_complete\<close> depends on\<close>

text \<open>
  C4 as stated fails: two \<^verbatim>\<open>StartCookingCommand\<close>s that observe the same world and differ
  only in their internal state give different answers, and so do two
  \<^verbatim>\<open>AddFoodToPlateCommand\<close>s; a \<^verbatim>\<open>CookIngredientCommand\<close> whose bot holds perfectly
  cooked food is complete or not according to its internal state.
\<close>

definition cooked_meat :: item where
  "cooked_meat = Food \<lparr>food_name = ''MEAT'', chopped = False, cooked_stage = 1\<rparr>"

theorem is_complete_differs_on_internal_state:
  "kind (StartCookingCommand\<lparr>state := Some ''done''\<rparr>) = kind StartCookingCommand
   \<and> \<not> is_complete kitchen_world 0 StartCookingCommand
   \<and> is_complete kitchen_world 0 (StartCookingCommand\<lparr>state := Some ''done''\<rparr>)
   \<and> kind ((AddFoodToPlateCommand MEAT)\<lparr>state := Some ''done''\<rparr>) = kind (AddFoodToPlateCommand MEAT)
   \<and> \<not> is_complete kitchen_world 0 (AddFoodToPlateCommand MEAT)
   \<and> is_complete kitchen_world 0 ((AddFoodToPlateCommand MEAT)\<lparr>state := Some ''done''\<rparr>)
   \<and> \<not> is_complete (one_bot_world kitchen_map (3, 1) (Some cooked_meat) [] 0) 0 CookIngredientCommand
   \<and> is_complete (one_bot_world kitchen_map (3, 1) (Some cooked_meat) [] 0) 0
        (CookIngredientCommand\<lparr>state := Some ''done''\<rparr>)"
  by code_simp

text \<open>
  C4 as amended: for the kinds buy-ingredient, buy-plate, store-in-box, place-on-counter,
  pickup-from-box, pickup-plate-from-counter, place-in-box, pickup-plate-from-box and submit,
  \<open>is_complete\<close> is a function of the observed bot state and the command's food type
  only: two commands of the same kind and food type give the same answer in the same world,
  whatever their internal progress state. For start-cooking and add-food-to-plate it is
  exactly ``internal state is done'', whatever is observed. For chop, cook and finish-cook it
  is false unless the internal state is done, and among commands of the same kind that agree
  on the internal state tag and the burned flag it depends on the observed bot state only.
\<close>

theorem is_complete_dependence:
  "(kind c \<in> {BuyIngredient, BuyPlate, StoreInBox, PlaceOnCounter, PickupFromBox,
               PickupPlateFromCounter, PlaceInBox, PickupPlateFromBox, SubmitOrder}
      \<and> kind c' = kind c \<and> cmd_food c' = cmd_food c
      \<longrightarrow> is_complete w b c' = is_complete w b c)
   \<and> (kind c \<in> {StartCooking, AddFoodToPlate}
      \<longrightarrow> is_complete w b c = (state c = Some ''done''))
   \<and> (kind c \<in> {ChopIngredient, CookIngredient, FinishCooking}
      \<longrightarrow> (is_complete w b c \<longrightarrow> state c = Some ''done'')
        \<and> (kind c' = kind c \<and> state c' = state c \<and> food_burned c' = food_burned c
             \<longrightarrow> is_complete w b c' = is_complete w b c))"
proof (intro conjI impI)
  assume a: "kind c \<in> {BuyIngredient, BuyPlate, StoreInBox, PlaceOnCounter, PickupFromBox,
               PickupPlateFromCounter, PlaceInBox, PickupPlateFromBox, SubmitOrder}
      \<and> kind c' = kind c \<and> cmd_food c' = cmd_food c"
  then have k: "kind c' = kind c" and f: "cmd_food c' = cmd_food c" by simp_all
  from a have "kind c \<in> {BuyIngredient, BuyPlate, StoreInBox, PlaceOnCounter, PickupFromBox,
               PickupPlateFromCounter, PlaceInBox, PickupPlateFromBox, SubmitOrder}" by simp
  then show "is_complete w b c' = is_complete w b c"
    unfolding is_complete_def k f by (cases "kind c") simp_all
next
  assume "kind c \<in> {StartCooking, AddFoodToPlate}"
  then show "is_complete w b c = (state c = Some ''done'')"
    by (auto simp add: is_complete_def)
next
  assume "kind c \<in> {ChopIngredient, CookIngredient, FinishCooking}" and "is_complete w b c"
  then show "state c = Some ''done''"
    by (auto simp add: is_complete_def split: if_splits)
next
  assume a: "kind c \<in> {ChopIngredient, CookIngredient, FinishCooking}"
    and e: "kind c' = kind c \<and> state c' = state c \<and> food_burned c' = food_burned c"
  from e have k: "kind c' = kind c" and st: "state c' = state c"
    and fb: "food_burned c' = food_burned c" by simp_all
  from a show "is_complete w b c' = is_complete w b c"
    unfolding is_complete_def k st fb by (cases "kind c") simp_all
qed

theorem is_complete_dependence_witness:
  "kind (BuyPlateCommand\<lparr>turn_count := 7, stuck_counter := 3, loc := Some (0, 0), buy_attempted := True\<rparr>)
     = kind BuyPlateCommand
   \<and> is_complete (one_bot_world kitchen_map (1, 1) (Some (Plate False [])) [] 0) 0
        (BuyPlateCommand\<lparr>turn_count := 7, stuck_counter := 3, loc := Some (0, 0), buy_attempted := True\<rparr>)
     = is_complete (one_bot_world kitchen_map (1, 1) (Some (Plate False [])) [] 0) 0 BuyPlateCommand
   \<and> is_complete (one_bot_world kitchen_map (1, 1) (Some (Plate False [])) [] 0) 0 BuyPlateCommand
   \<and> is_complete kitchen_world 0 (StartCookingCommand\<lparr>state := Some ''done''\<rparr>)
   \<and> \<not> is_complete (one_bot_world kitchen_map (3, 1) (Some cooked_meat) [] 0) 0 CookIngredientCommand"
proof -
  let ?w = "one_bot_world kitchen_map (1, 1) (Some (Plate False [])) [] 0"
  let ?c' = "BuyPlateCommand\<lparr>turn_count := 7, stuck_counter := 3, loc := Some (0, 0), buy_attempted := True\<rparr>"
  have k: "kind ?c' = kind BuyPlateCommand" "kind BuyPlateCommand = BuyPlate"
    "cmd_food ?c' = cmd_food BuyPlateCommand"
    by (simp_all add: BuyPlateCommand_def Command_def)
  have a: "is_complete ?w 0 ?c' = is_complete ?w 0 BuyPlateCommand"
    using is_complete_dependence[of BuyPlateCommand ?c' ?w 0] k by simp
  have h: "is_complete ?w 0 BuyPlateCommand" by code_simp
  have s: "kind (StartCookingCommand\<lparr>state := Some ''done''\<rparr>) = StartCooking"
    "state (StartCookingCommand\<lparr>state := Some ''done''\<rparr>) = Some ''done''"
    by (simp_all add: StartCookingCommand_def Command_def)
  have b: "is_complete kitchen_world 0 (StartCookingCommand\<lparr>state := Some ''done''\<rparr>)"
    using is_complete_dependence[of "StartCookingCommand\<lparr>state := Some ''done''\<rparr>" _ kitchen_world 0] s
    by simp
  have ck: "kind CookIngredientCommand = CookIngredient"
    "state CookIngredientCommand \<noteq> Some ''done''"
    by (simp_all add: CookIngredientCommand_def Command_def)
  have c: "\<not> is_complete (one_bot_world kitchen_map (3, 1) (Some cooked_meat) [] 0) 0 CookIngredientCommand"
    using is_complete_dependence[of CookIngredientCommand _
        "one_bot_world kitchen_map (3, 1) (Some cooked_meat) [] 0" 0] ck
    by auto
  from k(1) a h b c show ?thesis by simp
qed

section \<open>Executing commands\<close>

text \<open>
  The requests a bot sends to the controller. The controller and the simulation behind it
  are not part of the planner: what the world looks like after a request (it may have been
  refused silently) is given by a function \<open>sim\<close> that every \<open>execute\<close> takes, and the
  ``verify'' steps of the commands read the world that \<open>sim\<close> returns.
\<close>

datatype action =
    Move int int | BuyFood food_type cell | BuyPlateItem cell | Place cell | Pickup cell
  | ChopAt cell | TakeFromPan cell | AddFood cell | Submit cell | Trash cell

type_synonym simulator = "world \<Rightarrow> int \<Rightarrow> action \<Rightarrow> world"

text \<open>Unpacking a target tile that is still \<^verbatim>\<open>None\<close> (\<^verbatim>\<open>cx, cy = self.cooker_loc\<close>) raises.\<close>

datatype py_error = TypeError

definition find_tile :: "world \<Rightarrow> string \<Rightarrow> cell option" where
  "find_tile w n = find (\<lambda>c. tile_name (tile_at (get_map w) c) = n) (all_cells (get_map w))"

text \<open>The scans that keep the first tile of least Chebyshev distance (\<^verbatim>\<open>dist < min_dist\<close>).\<close>

definition closest_where :: "(tile \<Rightarrow> bool) \<Rightarrow> world \<Rightarrow> cell \<Rightarrow> cell option" where
  "closest_where P w from_pos =
     map_option fst
       (foldl (\<lambda>best c.
                 if P (tile_at (get_map w) c)
                    \<and> (case best of None \<Rightarrow> True | Some (_, min_dist) \<Rightarrow> cheb c from_pos < min_dist)
                 then Some (c, cheb c from_pos) else best)
              None (all_cells (get_map w)))"

definition find_closest_tile :: "world \<Rightarrow> string \<Rightarrow> cell \<Rightarrow> cell option" where
  "find_closest_tile w n from_pos = closest_where (\<lambda>t. tile_name t = n) w from_pos"

definition find_closest_empty_tile :: "world \<Rightarrow> string \<Rightarrow> cell \<Rightarrow> cell option" where
  "find_closest_empty_tile w n from_pos =
     closest_where (\<lambda>t. tile_name t = n \<and> item t = None) w from_pos"

text \<open>\<^verbatim>\<open>next_move = bfs_to_adjacent(...); if next_move: controller.move(...)\<close>\<close>

definition move_towards :: "world \<Rightarrow> cell \<Rightarrow> cell \<Rightarrow> action option" where
  "move_towards w pos target =
     (case bfs_to_adjacent w pos target of None \<Rightarrow> None | Some d \<Rightarrow> Some (Move (fst d) (snd d)))"

subsection \<open>Buying\<close>

definition execute_BuyIngredient ::
  "simulator \<Rightarrow> world \<Rightarrow> int \<Rightarrow> command \<Rightarrow> py_error + command \<times> action option" where
  "execute_BuyIngredient sim w bot_id c0 =
     (let c1 = c0\<lparr>turn_count := turn_count c0 + 1\<rparr> in
      case get_bot_state w bot_id of
        None \<Rightarrow> Inr (c1, None)
      | Some st \<Rightarrow>
          let pos = (bot_x st, bot_y st);
              c = check_progress c1 (None, bot_x st, bot_y st, Some (holding st \<noteq> None))
          in if holding st \<noteq> None then Inr (c, None)
             else case (case loc c of None \<Rightarrow> find_tile w ''SHOP'' | Some l \<Rightarrow> Some l) of
                    None \<Rightarrow> Inr (c, None)
                  | Some shop \<Rightarrow>
                      let c = c\<lparr>loc := Some shop\<rparr> in
                      if cheb pos shop \<le> 1 then
                        (if \<not> buy_attempted c then
                           (case cmd_food c of
                              None \<Rightarrow> Inl TypeError
                            | Some ft \<Rightarrow>
                                if get_team_money w < buy_cost ft then Inr (c, None)
                                else Inr (c\<lparr>buy_attempted := True\<rparr>, Some (BuyFood ft shop)))
                         else Inr (c, None))
                      else Inr (c, move_towards w pos shop))"

definition execute_BuyPlate ::
  "int \<Rightarrow> simulator \<Rightarrow> world \<Rightarrow> int \<Rightarrow> command \<Rightarrow> py_error + command \<times> action option" where
  "execute_BuyPlate plate_cost sim w bot_id c0 =
     (let c1 = c0\<lparr>turn_count := turn_count c0 + 1\<rparr> in
      case get_bot_state w bot_id of
        None \<Rightarrow> Inr (c1, None)
      | Some st \<Rightarrow>
          let pos = (bot_x st, bot_y st);
              c = check_progress c1 (None, bot_x st, bot_y st, Some (holding st \<noteq> None))
          in if holding st \<noteq> None then Inr (c, None)
             else case (case loc c of None \<Rightarrow> find_tile w ''SHOP'' | Some l \<Rightarrow> Some l) of
                    None \<Rightarrow> Inr (c, None)
                  | Some shop \<Rightarrow>
                      let c = c\<lparr>loc := Some shop\<rparr> in
                      if cheb pos shop \<le> 1 then
                        (if \<not> buy_attempted c then
                           (if get_team_money w < plate_cost then Inr (c, None)
                            else Inr (c\<lparr>buy_attempted := True\<rparr>, Some (BuyPlateItem shop)))
                         else Inr (c, None))
                      else Inr (c, move_towards w pos shop))"

subsection \<open>Cooking\<close>

text \<open>The food in the pan on a tile: \<^verbatim>\<open>item.__class__.__name__ == "Pan"\<close>, then
  \<^verbatim>\<open>getattr(item, "food", None)\<close>. The outer \<open>None\<close> is ``no pan there''.\<close>

definition pan_food :: "world \<Rightarrow> cell \<Rightarrow> food option option" where
  "pan_food w l = (case item (tile_at (get_map w) l) of Some (Pan fo) \<Rightarrow> Some fo | _ \<Rightarrow> None)"

definition execute_CookIngredient ::
  "simulator \<Rightarrow> world \<Rightarrow> int \<Rightarrow> command \<Rightarrow> py_error + command \<times> action option" where
  "execute_CookIngredient sim w bot_id c0 =
     (let c = c0\<lparr>turn_count := turn_count c0 + 1\<rparr> in
      case get_bot_state w bot_id of
        None \<Rightarrow> Inr (c, None)
      | Some st \<Rightarrow>
          let pos = (bot_x st, bot_y st) in
          if state c = Some ''navigating'' then
            (case (case loc c of None \<Rightarrow> find_closest_tile w ''COOKER'' pos | Some l \<Rightarrow> Some l) of
               None \<Rightarrow> Inr (c, None)
             | Some cooker \<Rightarrow>
                 let c = c\<lparr>loc := Some cooker\<rparr> in
                 if cheb pos cooker \<le> 1 then Inr (c\<lparr>state := Some ''placing''\<rparr>, None)
                 else Inr (c, move_towards w pos cooker))
          else if state c = Some ''placing'' then
            (if holding st \<noteq> None then
               (case loc c of
                  None \<Rightarrow> Inl TypeError
                | Some cooker \<Rightarrow>
                    let w' = sim w bot_id (Place cooker) in
                    (case get_bot_state w' bot_id of
                       None \<Rightarrow> Inr (c\<lparr>state := Some ''navigating''\<rparr>, Some (Place cooker))
                     | Some st' \<Rightarrow>
                         if holding st' = None then
                           (if pan_food w' cooker \<noteq> None
                            then Inr (c\<lparr>state := Some ''cooking''\<rparr>, Some (Place cooker))
                            else Inr (c\<lparr>state := Some ''navigating''\<rparr>, Some (Place cooker)))
                         else Inr (c\<lparr>state := Some ''navigating''\<rparr>, Some (Place cooker))))
             else Inr (c, None))
          else if state c = Some ''cooking'' then
            (case loc c of
               None \<Rightarrow> Inl TypeError
             | Some cooker \<Rightarrow>
                 (case pan_food w cooker of
                    None \<Rightarrow> Inr (c\<lparr>state := Some ''done''\<rparr>, None)
                  | Some None \<Rightarrow> Inr (c, None)
                  | Some (Some f) \<Rightarrow>
                      if cooked_stage f = 1 then Inr (c\<lparr>state := Some ''picking_up''\<rparr>, None)
                      else if cooked_stage f \<ge> 2 then Inr (c\<lparr>state := Some ''done''\<rparr>, None)
                      else Inr (c, None)))
          else if state c = Some ''picking_up'' then
            (case loc c of
               None \<Rightarrow> Inl TypeError
             | Some cooker \<Rightarrow>
                 (case pan_food w cooker of
                    None \<Rightarrow> Inr (c\<lparr>state := Some ''done''\<rparr>, None)
                  | Some None \<Rightarrow> Inr (c\<lparr>state := Some ''done''\<rparr>, None)
                  | Some (Some f) \<Rightarrow>
                      if cooked_stage f = 1 then
                        (let w' = sim w bot_id (TakeFromPan cooker) in
                         case get_bot_state w' bot_id of
                           None \<Rightarrow> Inr (c, Some (TakeFromPan cooker))
                         | Some st' \<Rightarrow>
                             if holding st' \<noteq> None
                             then Inr (c\<lparr>state := Some ''done''\<rparr>, Some (TakeFromPan cooker))
                             else Inr (c, Some (TakeFromPan cooker)))
                      else Inr (c\<lparr>state := Some ''done''\<rparr>, None)))
          else Inr (c, None))"

text \<open>\<^verbatim>\<open>FinishCookingCommand._find_cooker_with_food\<close>\<close>

definition find_cooker_with_food :: "world \<Rightarrow> string \<Rightarrow> cell option" where
  "find_cooker_with_food w n =
     find (\<lambda>c. tile_name (tile_at (get_map w) c) = ''COOKER''
              \<and> (case pan_food w c of Some (Some f) \<Rightarrow> food_name f = n | _ \<Rightarrow> False))
          (all_cells (get_map w))"

definition execute_FinishCooking ::
  "simulator \<Rightarrow> world \<Rightarrow> int \<Rightarrow> command \<Rightarrow> py_error + command \<times> action option" where
  "execute_FinishCooking sim w bot_id c0 =
     (let c = c0\<lparr>turn_count := turn_count c0 + 1\<rparr> in
      case get_bot_state w bot_id of
        None \<Rightarrow> Inr (c, None)
      | Some st \<Rightarrow>
          let pos = (bot_x st, bot_y st) in
          if state c = Some ''waiting'' then
            (case (case loc c of
                     None \<Rightarrow> (case cmd_food c of None \<Rightarrow> None
                               | Some ft \<Rightarrow> find_cooker_with_food w (ft_name ft))
                   | Some l \<Rightarrow> Some l) of
               None \<Rightarrow> Inr (c, None)
             | Some cooker \<Rightarrow>
                 let c = c\<lparr>loc := Some cooker\<rparr> in
                 (case pan_food w cooker of
                    None \<Rightarrow> Inr (c\<lparr>food_burned := True, state := Some ''done''\<rparr>, None)
                  | Some None \<Rightarrow> Inr (c, None)
                  | Some (Some f) \<Rightarrow>
                      if cooked_stage f = 1 then Inr (c\<lparr>state := Some ''navigating''\<rparr>, None)
                      else if cooked_stage f \<ge> 2
                      then Inr (c\<lparr>food_burned := True, state := Some ''done''\<rparr>, None)
                      else Inr (c, None)))
          else if state c = Some ''navigating'' then
            (case loc c of
               None \<Rightarrow> Inl TypeError
             | Some cooker \<Rightarrow>
                 if cheb pos cooker \<le> 1 then Inr (c\<lparr>state := Some ''picking_up''\<rparr>, None)
                 else Inr (c, move_towards w pos cooker))
          else if state c = Some ''picking_up'' then
            (case loc c of
               None \<Rightarrow> Inl TypeError
             | Some cooker \<Rightarrow>
                 (case pan_food w cooker of
                    None \<Rightarrow> Inr (c\<lparr>food_burned := True, state := Some ''done''\<rparr>, None)
                  | Some None \<Rightarrow> Inr (c\<lparr>food_burned := True, state := Some ''done''\<rparr>, None)
                  | Some (Some f) \<Rightarrow>
                      if cooked_stage f = 1 then
                        (let w' = sim w bot_id (TakeFromPan cooker) in
                         case get_bot_state w' bot_id of
                           None \<Rightarrow> Inr (c\<lparr>state := Some ''done''\<rparr>, Some (TakeFromPan cooker))
                         | Some st' \<Rightarrow>
                             if holding st' \<noteq> None
                             then Inr (c\<lparr>state := Some ''done''\<rparr>, Some (TakeFromPan cooker))
                             else Inr (c\<lparr>state := Some ''done''\<rparr>, Some (TakeFromPan cooker)))
                      else Inr (c\<lparr>food_burned := True, state := Some ''done''\<rparr>, None)))
          else Inr (c, None))"

subsection \<open>The other command classes\<close>

definition is_food_named :: "string \<Rightarrow> item option \<Rightarrow> bool" where
  "is_food_named n it = (case it of Some (Food f) \<Rightarrow> food_name f = n | _ \<Rightarrow> False)"

definition is_plate :: "item option \<Rightarrow> bool" where
  "is_plate it = (case it of Some (Plate _ _) \<Rightarrow> True | _ \<Rightarrow> False)"

text \<open>\<^verbatim>\<open>item.__class__.__name__ == holding_type\<close>\<close>

definition same_class :: "item \<Rightarrow> item \<Rightarrow> bool" where
  "same_class a b = (case (a, b) of (Food _, Food _) \<Rightarrow> True | (Plate _ _, Plate _ _) \<Rightarrow> True
                     | (Pan _, Pan _) \<Rightarrow> True | _ \<Rightarrow> False)"

text \<open>\<^verbatim>\<open>self.retries += 1\<close>, then \<^verbatim>\<open>if self.retries > self.max_retries:\<close> give up as failed.\<close>

definition retry_or_fail :: "command \<Rightarrow> command" where
  "retry_or_fail c =
     (let c = c\<lparr>retries := retries c + 1\<rparr> in
      if retries c > max_retries c then c\<lparr>state := Some ''done'', failed := Some True\<rparr> else c)"

definition execute_ChopIngredient ::
  "simulator \<Rightarrow> world \<Rightarrow> int \<Rightarrow> command \<Rightarrow> py_error + command \<times> action option" where
  "execute_ChopIngredient sim w bot_id c0 =
     (let c1 = c0\<lparr>turn_count := turn_count c0 + 1\<rparr> in
      case get_bot_state w bot_id of
        None \<Rightarrow> Inr (c1, None)
      | Some st \<Rightarrow>
          let pos = (bot_x st, bot_y st);
              c = check_progress c1 (state c1, bot_x st, bot_y st, Some (holding st \<noteq> None))
          in
          if (state c = Some ''navigating'' \<or> state c = Some ''placing'') \<and> holding st = None
          then Inr (c\<lparr>state := Some ''done'', failed := Some True\<rparr>, None)
          else if state c = Some ''navigating'' then
            (let found = (if loc c = None \<or> retries c > 0
                          then find_closest_empty_tile w ''COUNTER'' pos else loc c);
                 c = c\<lparr>loc := found\<rparr>
             in case found of
                  None \<Rightarrow>
                    (if loc c0 = None \<or> retries c0 > 0 then Inr (retry_or_fail c, None)
                     else Inl TypeError)
                | Some counter \<Rightarrow>
                    if cheb pos counter \<le> 1 then
                      (if item (tile_at (get_map w) counter) = None
                       then Inr (c\<lparr>state := Some ''placing''\<rparr>, None)
                       else Inr (retry_or_fail (c\<lparr>loc := None\<rparr>), None))
                    else
                      (case move_towards w pos counter of
                         Some mv \<Rightarrow> Inr (c, Some mv)
                       | None \<Rightarrow> Inr (c\<lparr>loc := None, retries := retries c + 1\<rparr>, None)))
          else if state c = Some ''placing'' then
            (if holding st \<noteq> None then
               (case loc c of
                  None \<Rightarrow> Inl TypeError
                | Some counter \<Rightarrow>
                    let w' = sim w bot_id (Place counter) in
                    if (case get_bot_state w' bot_id of None \<Rightarrow> False | Some st' \<Rightarrow> holding st' = None)
                    then Inr (c\<lparr>state := Some ''chopping''\<rparr>, Some (Place counter))
                    else Inr (retry_or_fail (c\<lparr>state := Some ''navigating'', loc := None\<rparr>),
                              Some (Place counter)))
             else Inr (c, None))
          else if state c = Some ''chopping'' then
            (if holding st = None then
               (case loc c of
                  None \<Rightarrow> Inl TypeError
                | Some counter \<Rightarrow>
                    (case item (tile_at (get_map w) counter) of
                       Some (Food f) \<Rightarrow>
                         if chopped f then Inr (c\<lparr>state := Some ''picking_up''\<rparr>, None)
                         else Inr (c\<lparr>state := Some ''picking_up''\<rparr>, Some (ChopAt counter))
                     | _ \<Rightarrow> Inr (c\<lparr>state := Some ''done''\<rparr>, None)))
             else Inr (c\<lparr>state := Some ''placing''\<rparr>, None))
          else if state c = Some ''picking_up'' then
            (case loc c of
               None \<Rightarrow> Inl TypeError
             | Some counter \<Rightarrow>
                 (case item (tile_at (get_map w) counter) of
                    Some (Food f) \<Rightarrow>
                      if chopped f then
                        (let w' = sim w bot_id (Pickup counter) in
                         if (case get_bot_state w' bot_id of None \<Rightarrow> False | Some st' \<Rightarrow> holding st' \<noteq> None)
                         then Inr (c\<lparr>state := Some ''done''\<rparr>, Some (Pickup counter))
                         else Inr (retry_or_fail c, Some (Pickup counter)))
                      else Inr (c\<lparr>state := Some ''done'', failed := Some True\<rparr>, None)
                  | _ \<Rightarrow> Inr (c\<lparr>state := Some ''done'', failed := Some True\<rparr>, None)))
          else Inr (c, None))"

definition execute_StartCooking ::
  "simulator \<Rightarrow> world \<Rightarrow> int \<Rightarrow> command \<Rightarrow> py_error + command \<times> action option" where
  "execute_StartCooking sim w bot_id c0 =
     (let c = c0\<lparr>turn_count := turn_count c0 + 1\<rparr> in
      case get_bot_state w bot_id of
        None \<Rightarrow> Inr (c, None)
      | Some st \<Rightarrow>
          let pos = (bot_x st, bot_y st) in
          if state c = Some ''navigating'' then
            (case (case loc c of None \<Rightarrow> find_closest_tile w ''COOKER'' pos | Some l \<Rightarrow> Some l) of
               None \<Rightarrow> Inr (c, None)
             | Some cooker \<Rightarrow>
                 let c = c\<lparr>loc := Some cooker\<rparr> in
                 if cheb pos cooker \<le> 1 then Inr (c\<lparr>state := Some ''placing''\<rparr>, None)
                 else Inr (c, move_towards w pos cooker))
          else if state c = Some ''placing'' then
            (if holding st \<noteq> None then
               (case loc c of
                  None \<Rightarrow> Inl TypeError
                | Some cooker \<Rightarrow>
                    let w' = sim w bot_id (Place cooker) in
                    if (case get_bot_state w' bot_id of None \<Rightarrow> False | Some st' \<Rightarrow> holding st' = None)
                    then Inr (c\<lparr>state := Some ''done''\<rparr>, Some (Place cooker))
                    else Inr (c\<lparr>state := Some ''navigating''\<rparr>, Some (Place cooker)))
             else Inr (c, None))
          else Inr (c, None))"

definition execute_StoreInBox ::
  "simulator \<Rightarrow> world \<Rightarrow> int \<Rightarrow> command \<Rightarrow> py_error + command \<times> action option" where
  "execute_StoreInBox sim w bot_id c0 =
     (let c = c0\<lparr>turn_count := turn_count c0 + 1\<rparr> in
      case get_bot_state w bot_id of
        None \<Rightarrow> Inr (c, None)
      | Some st \<Rightarrow>
          (case holding st of
             None \<Rightarrow> Inr (c, None)
           | Some h \<Rightarrow>
               let pos = (bot_x st, bot_y st);
                   found = (case loc c of
                      Some l \<Rightarrow> Some l
                    | None \<Rightarrow>
                        find (\<lambda>t. tile_name (tile_at (get_map w) t) = ''BOX''
                                 \<and> (case item (tile_at (get_map w) t) of
                                       None \<Rightarrow> True
                                     | Some (Food f) \<Rightarrow> (case h of Food g \<Rightarrow> food_name f = food_name g | _ \<Rightarrow> False)
                                     | _ \<Rightarrow> False))
                             (all_cells (get_map w)))
               in case found of
                    None \<Rightarrow> Inr (c, None)
                  | Some box \<Rightarrow>
                      let c = c\<lparr>loc := Some box\<rparr> in
                      if cheb pos box \<le> 1 then Inr (c, Some (Place box))
                      else Inr (c, move_towards w pos box)))"

definition execute_PlaceOnCounter ::
  "simulator \<Rightarrow> world \<Rightarrow> int \<Rightarrow> command \<Rightarrow> py_error + command \<times> action option" where
  "execute_PlaceOnCounter sim w bot_id c0 =
     (let c1 = c0\<lparr>turn_count := turn_count c0 + 1\<rparr> in
      case get_bot_state w bot_id of
        None \<Rightarrow> Inr (c1, None)
      | Some st \<Rightarrow>
          let pos = (bot_x st, bot_y st);
              c = check_progress c1 (None, bot_x st, bot_y st, Some (holding st \<noteq> None))
          in if holding st = None then Inr (c, None)
             else case (case loc c of None \<Rightarrow> find_closest_empty_tile w ''COUNTER'' pos | Some l \<Rightarrow> Some l) of
                    None \<Rightarrow>
                      (if retries c < max_retries c then Inr (c\<lparr>retries := retries c + 1\<rparr>, None)
                       else Inr (c, None))
                  | Some counter \<Rightarrow>
                      let c = c\<lparr>loc := Some counter\<rparr> in
                      if cheb pos counter \<le> 1 then
                        (if item (tile_at (get_map w) counter) = None then
                           (let w' = sim w bot_id (Place counter) in
                            if (case get_bot_state w' bot_id of None \<Rightarrow> False | Some st' \<Rightarrow> holding st' \<noteq> None)
                            then Inr (c\<lparr>loc := None, retries := retries c + 1\<rparr>, Some (Place counter))
                            else Inr (c, Some (Place counter)))
                         else Inr (c\<lparr>loc := None, retries := retries c + 1\<rparr>, None))
                      else
                        (case move_towards w pos counter of
                           Some mv \<Rightarrow> Inr (c, Some mv)
                         | None \<Rightarrow> Inr (c\<lparr>loc := None, retries := retries c + 1\<rparr>, None)))"

definition execute_PickupFromBox ::
  "simulator \<Rightarrow> world \<Rightarrow> int \<Rightarrow> command \<Rightarrow> py_error + command \<times> action option" where
  "execute_PickupFromBox sim w bot_id c0 =
     (let c = c0\<lparr>turn_count := turn_count c0 + 1\<rparr> in
      case get_bot_state w bot_id of
        None \<Rightarrow> Inr (c, None)
      | Some st \<Rightarrow>
          if holding st \<noteq> None then Inr (c, None)
          else
            let pos = (bot_x st, bot_y st);
                found = (case loc c of
                   Some l \<Rightarrow> Some l
                 | None \<Rightarrow>
                     (case cmd_food c of
                        None \<Rightarrow> None
                      | Some ft \<Rightarrow>
                          find (\<lambda>t. tile_name (tile_at (get_map w) t) = ''BOX''
                                   \<and> is_food_named (ft_name ft) (item (tile_at (get_map w) t)))
                               (all_cells (get_map w))))
            in case found of
                 None \<Rightarrow> Inr (c, None)
               | Some box \<Rightarrow>
                   let c = c\<lparr>loc := Some box\<rparr> in
                   if cheb pos box \<le> 1 then Inr (c, Some (Pickup box))
                   else Inr (c, move_towards w pos box))"

definition execute_PickupPlateFromCounter ::
  "simulator \<Rightarrow> world \<Rightarrow> int \<Rightarrow> command \<Rightarrow> py_error + command \<times> action option" where
  "execute_PickupPlateFromCounter sim w bot_id c0 =
     (let c1 = c0\<lparr>turn_count := turn_count c0 + 1\<rparr> in
      case get_bot_state w bot_id of
        None \<Rightarrow> Inr (c1, None)
      | Some st \<Rightarrow>
          let pos = (bot_x st, bot_y st);
              c = check_progress c1 (None, bot_x st, bot_y st, Some (holding st \<noteq> None))
          in if holding st \<noteq> None then Inr (c, None)
             else
               let found = (if loc c = None \<or> retries c > 0
                            then closest_where (\<lambda>t. tile_name t = ''COUNTER'' \<and> is_plate (item t)) w pos
                            else loc c);
                   c = c\<lparr>loc := found\<rparr>
               in case found of
                    None \<Rightarrow>
                      (if loc c0 = None \<or> retries c0 > 0 then Inr (c\<lparr>retries := retries c + 1\<rparr>, None)
                       else Inl TypeError)
                  | Some plate \<Rightarrow>
                      if cheb pos plate \<le> 1 then
                        (if is_plate (item (tile_at (get_map w) plate))
                         then Inr (c, Some (Pickup plate))
                         else Inr (c\<lparr>loc := None, retries := retries c + 1\<rparr>, None))
                      else
                        (case move_towards w pos plate of
                           Some mv \<Rightarrow> Inr (c, Some mv)
                         | None \<Rightarrow> Inr (c\<lparr>loc := None, retries := retries c + 1\<rparr>, None)))"

definition box_suits :: "world \<Rightarrow> item \<Rightarrow> cell \<Rightarrow> bool" where
  "box_suits w h t = (case item (tile_at (get_map w) t) of None \<Rightarrow> True | Some it \<Rightarrow> same_class it h)"

definition execute_PlaceInBox ::
  "simulator \<Rightarrow> world \<Rightarrow> int \<Rightarrow> command \<Rightarrow> py_error + command \<times> action option" where
  "execute_PlaceInBox sim w bot_id c0 =
     (let c = c0\<lparr>turn_count := turn_count c0 + 1\<rparr> in
      case get_bot_state w bot_id of
        None \<Rightarrow> Inr (c, None)
      | Some st \<Rightarrow>
          (case holding st of
             None \<Rightarrow> Inr (c, None)
           | Some h \<Rightarrow>
               let pos = (bot_x st, bot_y st);
                   found = (case loc c of
                      Some l \<Rightarrow> Some l
                    | None \<Rightarrow> find (\<lambda>t. tile_name (tile_at (get_map w) t) = ''BOX'' \<and> box_suits w h t)
                                    (all_cells (get_map w)))
               in case found of
                    None \<Rightarrow>
                      (if retries c < max_retries c then Inr (c\<lparr>retries := retries c + 1\<rparr>, None)
                       else Inr (c, None))
                  | Some box \<Rightarrow>
                      let c = c\<lparr>loc := Some box\<rparr> in
                      if cheb pos box \<le> 1 then
                        (if box_suits w h box then
                           (let w' = sim w bot_id (Place box) in
                            if (case get_bot_state w' bot_id of None \<Rightarrow> False | Some st' \<Rightarrow> holding st' \<noteq> None)
                            then Inr (c\<lparr>loc := None, retries := retries c + 1\<rparr>, Some (Place box))
                            else Inr (c, Some (Place box)))
                         else Inr (c\<lparr>loc := None, retries := retries c + 1\<rparr>, None))
                      else Inr (c, move_towards w pos box)))"

definition execute_PickupPlateFromBox ::
  "simulator \<Rightarrow> world \<Rightarrow> int \<Rightarrow> command \<Rightarrow> py_error + command \<times> action option" where
  "execute_PickupPlateFromBox sim w bot_id c0 =
     (let c = c0\<lparr>turn_count := turn_count c0 + 1\<rparr> in
      case get_bot_state w bot_id of
        None \<Rightarrow> Inr (c, None)
      | Some st \<Rightarrow>
          if holding st \<noteq> None then Inr (c, None)
          else
            let pos = (bot_x st, bot_y st);
                found = (case loc c of
                   Some l \<Rightarrow> Some l
                 | None \<Rightarrow> find (\<lambda>t. tile_name (tile_at (get_map w) t) = ''BOX''
                                     \<and> is_plate (item (tile_at (get_map w) t)))
                                 (all_cells (get_map w)))
            in case found of
                 None \<Rightarrow> Inr (c, None)
               | Some box \<Rightarrow>
                   let c = c\<lparr>loc := Some box\<rparr> in
                   if cheb pos box \<le> 1 then Inr (c, Some (Pickup box))
                   else Inr (c, move_towards w pos box))"

text \<open>\<^verbatim>\<open>self.retries += 1\<close>, then \<^verbatim>\<open>if self.retries >= self.max_retries:\<close> give up (no
  \<^verbatim>\<open>failed\<close> flag in this class).\<close>

definition retry_or_done :: "command \<Rightarrow> command" where
  "retry_or_done c =
     (let c = c\<lparr>retries := retries c + 1\<rparr> in
      if retries c \<ge> max_retries c then c\<lparr>state := Some ''done''\<rparr> else c)"

definition execute_AddFoodToPlate ::
  "simulator \<Rightarrow> world \<Rightarrow> int \<Rightarrow> command \<Rightarrow> py_error + command \<times> action option" where
  "execute_AddFoodToPlate sim w bot_id c0 =
     (let c1 = c0\<lparr>turn_count := turn_count c0 + 1\<rparr> in
      case get_bot_state w bot_id of
        None \<Rightarrow> Inr (c1, None)
      | Some st \<Rightarrow>
          let pos = (bot_x st, bot_y st);
              c = check_progress c1 (state c1, bot_x st, bot_y st, None)
          in
          (case holding st of
             Some (Plate is_dirty plate_food) \<Rightarrow>
               (case cmd_food c of
                  None \<Rightarrow> Inl TypeError
                | Some ft \<Rightarrow>
                    if state c = Some ''navigating'' then
                      (case (case loc c of
                               None \<Rightarrow> closest_where (\<lambda>t. tile_name t = ''COUNTER''
                                                           \<and> is_food_named (ft_name ft) (item t)) w pos
                             | Some l \<Rightarrow> Some l) of
                         None \<Rightarrow> Inr (retry_or_done c, None)
                       | Some food_at \<Rightarrow>
                           let c = c\<lparr>loc := Some food_at\<rparr> in
                           if cheb pos food_at \<le> 1 then
                             (if is_food_named (ft_name ft) (item (tile_at (get_map w) food_at))
                              then Inr (c\<lparr>initial_food_count := Some (length plate_food),
                                          state := Some ''adding''\<rparr>, None)
                              else Inr (c\<lparr>loc := None, retries := retries c + 1\<rparr>, None))
                           else
                             (case move_towards w pos food_at of
                                Some mv \<Rightarrow> Inr (c, Some mv)
                              | None \<Rightarrow> Inr (c\<lparr>loc := None, retries := retries c + 1\<rparr>, None)))
                    else if state c = Some ''adding'' then
                      (case loc c of
                         None \<Rightarrow> Inl TypeError
                       | Some food_at \<Rightarrow>
                           if is_food_named (ft_name ft) (item (tile_at (get_map w) food_at)) then
                             (let w' = sim w bot_id (AddFood food_at) in
                              case get_bot_state w' bot_id of
                                None \<Rightarrow> Inr (c, Some (AddFood food_at))
                              | Some st' \<Rightarrow>
                                  (case holding st' of
                                     Some (Plate _ new_food) \<Rightarrow>
                                       (case initial_food_count c of
                                          None \<Rightarrow> Inl TypeError
                                        | Some n0 \<Rightarrow>
                                            if length new_food > n0
                                            then Inr (c\<lparr>state := Some ''done''\<rparr>, Some (AddFood food_at))
                                            else Inr (retry_or_done (c\<lparr>state := Some ''navigating'', loc := None\<rparr>),
                                                      Some (AddFood food_at)))
                                   | _ \<Rightarrow> Inr (c\<lparr>state := Some ''done''\<rparr>, Some (AddFood food_at))))
                           else Inr (retry_or_done (c\<lparr>state := Some ''navigating'', loc := None\<rparr>), None))
                    else Inr (c, None))
           | _ \<Rightarrow> Inr (c\<lparr>state := Some ''done''\<rparr>, None)))"

definition execute_SubmitOrder ::
  "simulator \<Rightarrow> world \<Rightarrow> int \<Rightarrow> command \<Rightarrow> py_error + command \<times> action option" where
  "execute_SubmitOrder sim w bot_id c0 =
     (let c = c0\<lparr>turn_count := turn_count c0 + 1\<rparr> in
      case get_bot_state w bot_id of
        None \<Rightarrow> Inr (c, None)
      | Some st \<Rightarrow>
          let pos = (bot_x st, bot_y st) in
          case (case loc c of None \<Rightarrow> find_tile w ''SUBMIT'' | Some l \<Rightarrow> Some l) of
            None \<Rightarrow> Inr (c, None)
          | Some submit_at \<Rightarrow>
              let c = c\<lparr>loc := Some submit_at\<rparr> in
              if cheb pos submit_at \<le> 1 then
                (if is_plate (holding st) \<and> \<not> submitted c then
                   (let w' = sim w bot_id (Submit submit_at) in
                    if (case get_bot_state w' bot_id of None \<Rightarrow> False | Some st' \<Rightarrow> holding st' \<noteq> None)
                    then Inr (c\<lparr>submitted := False\<rparr>, Some (Submit submit_at))
                    else Inr (c\<lparr>submitted := True\<rparr>, Some (Submit submit_at)))
                 else Inr (c, None))
              else Inr (c, move_towards w pos submit_at))"

text \<open>The dispatch of \<^verbatim>\<open>current_cmd.execute(controller, bot_id)\<close> on the class of the
  command.\<close>

definition execute ::
  "int \<Rightarrow> simulator \<Rightarrow> world \<Rightarrow> int \<Rightarrow> command \<Rightarrow> py_error + command \<times> action option" where
  "execute plate_cost sim w bot_id c =
     (case kind c of
        BuyIngredient \<Rightarrow> execute_BuyIngredient sim w bot_id c
      | BuyPlate \<Rightarrow> execute_BuyPlate plate_cost sim w bot_id c
      | ChopIngredient \<Rightarrow> execute_ChopIngredient sim w bot_id c
      | CookIngredient \<Rightarrow> execute_CookIngredient sim w bot_id c
      | StartCooking \<Rightarrow> execute_StartCooking sim w bot_id c
      | FinishCooking \<Rightarrow> execute_FinishCooking sim w bot_id c
      | StoreInBox \<Rightarrow> execute_StoreInBox sim w bot_id c
      | PlaceOnCounter \<Rightarrow> execute_PlaceOnCounter sim w bot_id c
      | PickupFromBox \<Rightarrow> execute_PickupFromBox sim w bot_id c
      | PickupPlateFromCounter \<Rightarrow> execute_PickupPlateFromCounter sim w bot_id c
      | PlaceInBox \<Rightarrow> execute_PlaceInBox sim w bot_id c
      | PickupPlateFromBox \<Rightarrow> execute_PickupPlateFromBox sim w bot_id c
      | AddFoodToPlate \<Rightarrow> execute_AddFoodToPlate sim w bot_id c
      | SubmitOrder \<Rightarrow> execute_SubmitOrder sim w bot_id c)"

subsection \<open>C5: finishing a cook\<close>

text \<open>
  What a \<^verbatim>\<open>FinishCookingCommand\<close> reads of the pan in one call of \<open>execute\<close>: in the
  states \<^verbatim>\<open>waiting\<close> and \<^verbatim>\<open>picking_up\<close> it looks at the pan on its cooker (the one it
  remembers, or the one it finds this tick) and, when there is food in it, at the food's
  \<^verbatim>\<open>cooked_stage\<close>. In the state \<^verbatim>\<open>navigating\<close> it reads no tile.
\<close>

definition finish_target :: "world \<Rightarrow> command \<Rightarrow> cell option" where
  "finish_target w c =
     (case loc c of
        Some l \<Rightarrow> Some l
      | None \<Rightarrow> (if state c = Some ''waiting''
                 then (case cmd_food c of None \<Rightarrow> None
                       | Some ft \<Rightarrow> find_cooker_with_food w (ft_name ft))
                 else None))"

definition observed_stage :: "world \<Rightarrow> int \<Rightarrow> command \<Rightarrow> int option" where
  "observed_stage w bot_id c =
     (if get_bot_state w bot_id = None then None
      else if state c = Some ''waiting'' \<or> state c = Some ''picking_up'' then
        (case finish_target w c of
           None \<Rightarrow> None
         | Some l \<Rightarrow> (case pan_food w l of Some (Some f) \<Rightarrow> Some (cooked_stage f) | _ \<Rightarrow> None))
      else None)"

lemma finish_pickup:
  "execute_FinishCooking sim w b c = Inr (c', Some (TakeFromPan l)) \<Longrightarrow>
   observed_stage w b c = Some 1 \<and> state c = Some ''picking_up'' \<and> loc c = Some l"
  by (auto simp: execute_FinishCooking_def Let_def observed_stage_def finish_target_def move_towards_def
      split: option.splits if_splits)

lemma finish_burnt:
  "observed_stage w b c = Some n \<Longrightarrow> 2 \<le> n \<Longrightarrow>
   \<exists>c'. execute_FinishCooking sim w b c = Inr (c', None) \<and> food_burned c' \<and> state c' = Some ''done''"
  by (auto simp: execute_FinishCooking_def Let_def observed_stage_def finish_target_def
      split: option.splits if_splits)

lemma finish_done:
  "state c = Some ''done'' \<Longrightarrow>
   \<exists>c'. execute_FinishCooking sim w b c = Inr (c', None) \<and> state c' = Some ''done''
        \<and> food_burned c' = food_burned c"
  by (auto simp: execute_FinishCooking_def Let_def split: option.splits)

lemma finish_kind:
  "execute_FinishCooking sim w b c = Inr (c', a) \<Longrightarrow> kind c' = kind c"
  by (auto simp: execute_FinishCooking_def Let_def move_towards_def
      split: option.splits if_splits)

text \<open>A collaborator that refuses every request silently, and kitchens with meat in the pan.\<close>

definition refusing :: simulator where
  "refusing w bot_id a = w"

definition meat_in_pan :: "int \<Rightarrow> item" where
  "meat_in_pan stage = Pan (Some \<lparr>food_name = ''MEAT'', chopped = False, cooked_stage = stage\<rparr>)"

definition cooking_map :: "int \<Rightarrow> gmap" where
  "cooking_map stage = kitchen_map\<lparr>tiles :=
     (tiles kitchen_map)[3 := [(station ''COOKER'')\<lparr>item := Some (meat_in_pan stage)\<rparr>,
                               floor_tile, floor_tile]]\<rparr>"

text \<open>
  C5: a \<^verbatim>\<open>FinishCookingCommand\<close> issues \<^verbatim>\<open>take_from_pan\<close> only in a call in which it has
  read \<^verbatim>\<open>cooked_stage == 1\<close> from the pan; and in every call in which it reads a stage of
  2 or more it issues no request, sets \<^verbatim>\<open>food_burned\<close> and goes to its terminal state
  \<^verbatim>\<open>done\<close>. From then on it is complete in every world, and a further call of
  \<open>execute\<close> issues nothing and leaves it there: there is no retry.
\<close>

theorem finish_cooking_picks_up_only_at_stage_one:
  "(execute_FinishCooking sim w b c = Inr (c', Some (TakeFromPan l)) \<longrightarrow>
      observed_stage w b c = Some 1)
   \<and> (kind c = FinishCooking \<and> observed_stage w b c = Some n \<and> 2 \<le> n \<longrightarrow>
      (\<exists>c''. execute_FinishCooking sim w b c = Inr (c'', None)
         \<and> food_burned c'' \<and> state c'' = Some ''done''
         \<and> (\<forall>w2 b2. is_complete w2 b2 c'')
         \<and> (\<forall>sim2 w2 b2. \<exists>c3. execute_FinishCooking sim2 w2 b2 c'' = Inr (c3, None)
               \<and> food_burned c3 \<and> state c3 = Some ''done'')))"
proof (intro conjI impI)
  assume "execute_FinishCooking sim w b c = Inr (c', Some (TakeFromPan l))"
  from finish_pickup[OF this] show "observed_stage w b c = Some 1" by simp
next
  assume a: "kind c = FinishCooking \<and> observed_stage w b c = Some n \<and> 2 \<le> n"
  then obtain c'' where e: "execute_FinishCooking sim w b c = Inr (c'', None)"
    and fb: "food_burned c''" and st: "state c'' = Some ''done''"
    using finish_burnt[of w b c n sim] by blast
  from finish_kind[OF e] a have k: "kind c'' = FinishCooking" by simp
  have "is_complete w2 b2 c''" for w2 b2
    using k fb st by (simp add: is_complete_def)
  moreover have "\<exists>c3. execute_FinishCooking sim2 w2 b2 c'' = Inr (c3, None)
               \<and> food_burned c3 \<and> state c3 = Some ''done''" for sim2 w2 b2
    using finish_done[OF st, of sim2 w2 b2] fb by auto
  ultimately show "\<exists>c''. execute_FinishCooking sim w b c = Inr (c'', None)
         \<and> food_burned c'' \<and> state c'' = Some ''done''
         \<and> (\<forall>w2 b2. is_complete w2 b2 c'')
         \<and> (\<forall>sim2 w2 b2. \<exists>c3. execute_FinishCooking sim2 w2 b2 c'' = Inr (c3, None)
               \<and> food_burned c3 \<and> state c3 = Some ''done'')"
    using e fb st by blast
qed

lemma burnt_observed:
  "kind (FinishCookingCommand MEAT) = FinishCooking
   \<and> observed_stage (one_bot_world (cooking_map 2) (1, 1) None [] 0) 0 (FinishCookingCommand MEAT) = Some 2"
  by code_simp

lemma perfect_pickup:
  "execute_FinishCooking refusing (one_bot_world (cooking_map 1) (3, 1) None [] 0) 0
     ((FinishCookingCommand MEAT)\<lparr>state := Some ''picking_up'', loc := Some (3, 0)\<rparr>)
   = Inr ((FinishCookingCommand MEAT)\<lparr>state := Some ''done'', loc := Some (3, 0), turn_count := 1\<rparr>,
          Some (TakeFromPan (3, 0)))"
  by code_simp

theorem finish_cooking_picks_up_only_at_stage_one_witness:
  "observed_stage (one_bot_world (cooking_map 1) (3, 1) None [] 0) 0
     ((FinishCookingCommand MEAT)\<lparr>state := Some ''picking_up'', loc := Some (3, 0)\<rparr>) = Some 1
   \<and> observed_stage (one_bot_world (cooking_map 2) (1, 1) None [] 0) 0 (FinishCookingCommand MEAT) = Some 2
   \<and> (\<exists>c''. execute_FinishCooking refusing (one_bot_world (cooking_map 2) (1, 1) None [] 0) 0
                (FinishCookingCommand MEAT) = Inr (c'', None)
         \<and> food_burned c'' \<and> state c'' = Some ''done'' \<and> is_complete kitchen_world 0 c'')"
proof -
  let ?w1 = "one_bot_world (cooking_map 1) (3, 1) None [] 0"
  let ?w2 = "one_bot_world (cooking_map 2) (1, 1) None [] 0"
  let ?c1 = "(FinishCookingCommand MEAT)\<lparr>state := Some ''picking_up'', loc := Some (3, 0)\<rparr>"
  have a: "observed_stage ?w1 0 ?c1 = Some 1"
    using finish_cooking_picks_up_only_at_stage_one[of refusing ?w1 0 ?c1 _ "(3, 0)"] perfect_pickup
    by simp
  have "\<exists>c''. execute_FinishCooking refusing ?w2 0 (FinishCookingCommand MEAT) = Inr (c'', None)
         \<and> food_burned c'' \<and> state c'' = Some ''done'' \<and> is_complete kitchen_world 0 c''"
    using finish_cooking_picks_up_only_at_stage_one[of refusing ?w2 0 "FinishCookingCommand MEAT" _ _ 2]
      burnt_observed by simp blast
  with a burnt_observed show ?thesis by simp
qed

subsection \<open>C6: stuck detection\<close>

text \<open>The number of fingerprints at the end of a history that equal the last one.\<close>

definition unchanged_run :: "fingerprint list \<Rightarrow> nat" where
  "unchanged_run fps = length (takeWhile (\<lambda>f. f = last fps) (rev fps))"

lemma check_progress_fields:
  "last_state (check_progress c f) = Some f"
  "stuck_counter (check_progress c f) = (if Some f = last_state c then stuck_counter c + 1 else 0)"
  "turn_count (check_progress c f) = turn_count c"
  "max_turns (check_progress c f) = max_turns c"
  "failed (check_progress c f) = failed c"
  "kind (check_progress c f) = kind c"
  by (simp_all add: check_progress_def)

lemma foldl_check_progress:
  assumes "last_state c = None" and "stuck_counter c = 0" and "fps \<noteq> []"
  shows "last_state (foldl check_progress c fps) = Some (last fps)
       \<and> stuck_counter (foldl check_progress c fps) = int (unchanged_run fps) - 1"
  using assms(3)
proof (induction fps rule: rev_induct)
  case Nil
  then show ?case by simp
next
  case (snoc f ps)
  show ?case
  proof (cases "ps = []")
    case True
    then show ?thesis using assms(1) by (simp add: check_progress_fields unchanged_run_def)
  next
    case False
    with snoc.IH have ls: "last_state (foldl check_progress c ps) = Some (last ps)"
      and sc: "stuck_counter (foldl check_progress c ps) = int (unchanged_run ps) - 1"
      by simp_all
    from False have hd: "rev ps = last ps # rev (butlast ps)"
      by (metis append_butlast_last_id rev.simps(2) rev_append rev_rev_ident append_Nil rev_singleton_conv)
    show ?thesis
    proof (cases "f = last ps")
      case True
      then show ?thesis using ls sc
        by (simp add: check_progress_fields unchanged_run_def)
    next
      case False
      have "takeWhile (\<lambda>fa. fa = f) (rev ps) = []"
        by (subst hd) (use False in simp)
      then show ?thesis using ls sc False
        by (simp add: check_progress_fields unchanged_run_def)
    qed
  qed
qed

lemma buy_records:
  "get_bot_state w b = Some st \<Longrightarrow> execute_BuyIngredient sim w b c = Inr (c', a) \<Longrightarrow>
   last_state c' = Some (None, bot_x st, bot_y st, Some (holding st \<noteq> None))
   \<and> stuck_counter c' =
       (if last_state c = Some (None, bot_x st, bot_y st, Some (holding st \<noteq> None))
        then stuck_counter c + 1 else 0)
   \<and> turn_count c' = turn_count c + 1"
  by (auto simp: execute_BuyIngredient_def Let_def check_progress_def move_towards_def
      split: option.splits if_splits)

lemma cook_records_nothing:
  "execute_CookIngredient sim w b c = Inr (c', a) \<Longrightarrow>
   last_state c' = last_state c \<and> stuck_counter c' = stuck_counter c
   \<and> turn_count c' = turn_count c + 1"
  by (auto simp: execute_CookIngredient_def Let_def move_towards_def
      split: option.splits if_splits)

lemma buy_plate_records:
  "get_bot_state w b = Some st \<Longrightarrow> execute_BuyPlate pc sim w b c = Inr (c', a) \<Longrightarrow>
   last_state c' = Some (None, bot_x st, bot_y st, Some (holding st \<noteq> None))
   \<and> stuck_counter c' =
       (if last_state c = Some (None, bot_x st, bot_y st, Some (holding st \<noteq> None))
        then stuck_counter c + 1 else 0)
   \<and> turn_count c' = turn_count c + 1"
  by (auto simp: execute_BuyPlate_def Let_def check_progress_def move_towards_def
      split: option.splits if_splits)

lemma finish_records_nothing:
  "execute_FinishCooking sim w b c = Inr (c', a) \<Longrightarrow>
   last_state c' = last_state c \<and> stuck_counter c' = stuck_counter c
   \<and> turn_count c' = turn_count c + 1"
  by (auto simp: execute_FinishCooking_def Let_def move_towards_def
      split: option.splits if_splits)

text \<open>
  C6 as stated fails. A command whose \<^verbatim>\<open>failed\<close> flag is set reports itself stuck with
  its tick counter below the ceiling and its stuck counter at 0. And a
  \<^verbatim>\<open>CookIngredientCommand\<close> records no fingerprint: after a call of \<open>execute\<close> in
  which it sees its bot, \<^verbatim>\<open>last_state\<close> is still \<^verbatim>\<open>None\<close>.
\<close>

theorem stuck_by_failed_flag_and_no_fingerprint_when_cooking:
  "is_stuck (ChopIngredientCommand\<lparr>turn_count := 1, state := Some ''done'', failed := Some True\<rparr>)
   \<and> \<not> max_turns (ChopIngredientCommand\<lparr>turn_count := 1, state := Some ''done'', failed := Some True\<rparr>)
         < turn_count (ChopIngredientCommand\<lparr>turn_count := 1, state := Some ''done'', failed := Some True\<rparr>)
   \<and> stuck_counter (ChopIngredientCommand\<lparr>turn_count := 1, state := Some ''done'', failed := Some True\<rparr>) = 0
   \<and> get_bot_state kitchen_world 0 = Some \<lparr>bot_x = 2, bot_y = 1, holding = None\<rparr>
   \<and> execute_CookIngredient refusing kitchen_world 0 CookIngredientCommand
       = Inr (CookIngredientCommand\<lparr>turn_count := 1, loc := Some (3, 0), state := Some ''placing''\<rparr>, None)
   \<and> last_state (CookIngredientCommand\<lparr>turn_count := 1, loc := Some (3, 0), state := Some ''placing''\<rparr>) = None"
  by code_simp

text \<open>
  C6 as amended: a command reports itself stuck exactly when its tick counter exceeds its
  ceiling, or its stuck counter exceeds 20 (a constant of the code), or it has set its
  \<^verbatim>\<open>failed\<close> flag. The ceiling of the cooking command is 150, that of the two buying
  commands 30. The stuck counter of a command that has recorded the fingerprints \<open>fps\<close>
  since it was created is the number of fingerprints at the end of \<open>fps\<close> equal to the
  last one, less one. The buying commands record the fingerprint (position, holding
  something or not) in every call of \<open>execute\<close> in which the bot's state is there, and
  count the tick; the cooking commands (cook-ingredient, finish-cooking) count the tick and
  record no fingerprint.
\<close>

theorem stuck_detection:
  "(is_stuck c \<longleftrightarrow> max_turns c < turn_count c \<or> 20 < stuck_counter c \<or> failed c = Some True)
   \<and> max_turns CookIngredientCommand = 150
   \<and> max_turns (BuyIngredientCommand ft) = 30 \<and> max_turns BuyPlateCommand = 30
   \<and> (fps \<noteq> [] \<and> last_state c = None \<and> stuck_counter c = 0 \<longrightarrow>
        last_state (foldl check_progress c fps) = Some (last fps)
        \<and> stuck_counter (foldl check_progress c fps) = int (unchanged_run fps) - 1)
   \<and> (get_bot_state w b = Some st \<and>
        (execute_BuyIngredient sim w b c = Inr (c', a) \<or> execute_BuyPlate pc sim w b c = Inr (c', a)) \<longrightarrow>
        last_state c' = Some (None, bot_x st, bot_y st, Some (holding st \<noteq> None))
        \<and> stuck_counter c' =
            (if last_state c = Some (None, bot_x st, bot_y st, Some (holding st \<noteq> None))
             then stuck_counter c + 1 else 0)
        \<and> turn_count c' = turn_count c + 1)
   \<and> (execute_CookIngredient sim w b c = Inr (c', a) \<or> execute_FinishCooking sim w b c = Inr (c', a) \<longrightarrow>
        last_state c' = last_state c \<and> stuck_counter c' = stuck_counter c
        \<and> turn_count c' = turn_count c + 1)"
proof (intro conjI impI)
  show "is_stuck c \<longleftrightarrow> max_turns c < turn_count c \<or> 20 < stuck_counter c \<or> failed c = Some True"
    by (simp add: is_stuck_def)
  show "max_turns CookIngredientCommand = 150"
    by (simp add: CookIngredientCommand_def Command_def)
  show "max_turns (BuyIngredientCommand ft) = 30"
    by (simp add: BuyIngredientCommand_def Command_def)
  show "max_turns BuyPlateCommand = 30"
    by (simp add: BuyPlateCommand_def Command_def)
next
  assume a: "fps \<noteq> [] \<and> last_state c = None \<and> stuck_counter c = 0"
  then have "last_state (foldl check_progress c fps) = Some (last fps)
       \<and> stuck_counter (foldl check_progress c fps) = int (unchanged_run fps) - 1"
    using foldl_check_progress[of c fps] by simp
  then show "last_state (foldl check_progress c fps) = Some (last fps)"
    and "stuck_counter (foldl check_progress c fps) = int (unchanged_run fps) - 1"
    by simp_all
next
  assume a: "get_bot_state w b = Some st \<and>
        (execute_BuyIngredient sim w b c = Inr (c', a) \<or> execute_BuyPlate pc sim w b c = Inr (c', a))"
  then have r: "last_state c' = Some (None, bot_x st, bot_y st, Some (holding st \<noteq> None))
   \<and> stuck_counter c' =
       (if last_state c = Some (None, bot_x st, bot_y st, Some (holding st \<noteq> None))
        then stuck_counter c + 1 else 0)
   \<and> turn_count c' = turn_count c + 1"
    using buy_records[of w b st sim c c' a] buy_plate_records[of w b st pc sim c c' a] by blast
  from r show "last_state c' = Some (None, bot_x st, bot_y st, Some (holding st \<noteq> None))" by simp
  from r show "stuck_counter c' =
       (if last_state c = Some (None, bot_x st, bot_y st, Some (holding st \<noteq> None))
        then stuck_counter c + 1 else 0)" by simp
  from r show "turn_count c' = turn_count c + 1" by simp
next
  assume a: "execute_CookIngredient sim w b c = Inr (c', a) \<or> execute_FinishCooking sim w b c = Inr (c', a)"
  then have r: "last_state c' = last_state c \<and> stuck_counter c' = stuck_counter c
        \<and> turn_count c' = turn_count c + 1"
    using cook_records_nothing[of sim w b c c' a] finish_records_nothing[of sim w b c c' a] by blast
  from r show "last_state c' = last_state c" by simp
  from r show "stuck_counter c' = stuck_counter c" by simp
  from r show "turn_count c' = turn_count c + 1" by simp
qed

lemma buy_in_kitchen:
  "get_bot_state kitchen_world 0 = Some \<lparr>bot_x = 2, bot_y = 1, holding = None\<rparr>
   \<and> execute_BuyIngredient refusing kitchen_world 0 (BuyIngredientCommand MEAT)
       = Inr ((BuyIngredientCommand MEAT)
                \<lparr>turn_count := 1, last_state := Some (None, 2, 1, Some False), loc := Some (0, 0)\<rparr>,
              Some (Move (-1) 0))"
  by code_simp

theorem stuck_detection_witness:
  "last_state ((BuyIngredientCommand MEAT)
      \<lparr>turn_count := 1, last_state := Some (None, 2, 1, Some False), loc := Some (0, 0)\<rparr>)
     = Some (None, 2, 1, Some False)
   \<and> stuck_counter ((BuyIngredientCommand MEAT)
      \<lparr>turn_count := 1, last_state := Some (None, 2, 1, Some False), loc := Some (0, 0)\<rparr>) = 0
   \<and> stuck_counter (foldl check_progress (BuyIngredientCommand MEAT)
        [(None, 1, 1, Some False), (None, 2, 1, Some False), (None, 2, 1, Some False),
         (None, 2, 1, Some False)]) = 2
   \<and> is_stuck ((BuyIngredientCommand MEAT)\<lparr>turn_count := 31\<rparr>)
   \<and> \<not> is_stuck ((BuyIngredientCommand MEAT)\<lparr>turn_count := 30, stuck_counter := 20\<rparr>)"
proof -
  let ?c' = "(BuyIngredientCommand MEAT)
      \<lparr>turn_count := 1, last_state := Some (None, 2, 1, Some False), loc := Some (0, 0)\<rparr>"
  let ?fps = "[(None, 1, 1, Some False), (None, 2, 1, Some False), (None, 2, 1, Some False),
         (None, 2, 1, Some False)] :: fingerprint list"
  have fresh: "last_state (BuyIngredientCommand MEAT) = None"
    "stuck_counter (BuyIngredientCommand MEAT) = 0"
    by (simp_all add: BuyIngredientCommand_def Command_def)
  have run: "unchanged_run ?fps = 3" by (simp add: unchanged_run_def)
  have a: "last_state ?c' = Some (None, 2, 1, Some False) \<and> stuck_counter ?c' = 0"
    using stuck_detection[where c = "BuyIngredientCommand MEAT" and w = kitchen_world and b = 0
        and st = "\<lparr>bot_x = 2, bot_y = 1, holding = None\<rparr>" and sim = refusing
        and c' = ?c' and a = "Some (Move (-1) 0)"]
      buy_in_kitchen fresh by simp
  have b: "stuck_counter (foldl check_progress (BuyIngredientCommand MEAT) ?fps) = 2"
    using stuck_detection[where c = "BuyIngredientCommand MEAT" and fps = ?fps] fresh run by simp
  have c: "is_stuck ((BuyIngredientCommand MEAT)\<lparr>turn_count := 31\<rparr>)"
    using stuck_detection[where c = "(BuyIngredientCommand MEAT)\<lparr>turn_count := 31\<rparr>"]
    by (simp add: BuyIngredientCommand_def Command_def)
  have d: "\<not> is_stuck ((BuyIngredientCommand MEAT)\<lparr>turn_count := 30, stuck_counter := 20\<rparr>)"
    using stuck_detection[where c = "(BuyIngredientCommand MEAT)\<lparr>turn_count := 30, stuck_counter := 20\<rparr>"]
    by (simp add: BuyIngredientCommand_def Command_def)
  from a b c d show ?thesis by simp
qed

section \<open>The bot: order selection, execution and recovery\<close>

record bot_player =
  bp_map :: gmap
  command_queue :: "command list"
  current_command_index :: nat
  processed_orders :: "int set"
  current_order_id :: "int option"
  cleaning_workspace :: bool
  cleanup_turns :: int
  max_cleanup_turns :: int

text \<open>\<^verbatim>\<open>BotPlayer.__init__\<close>\<close>

definition BotPlayer :: "gmap \<Rightarrow> bot_player" where
  "BotPlayer map_copy = \<lparr>bp_map = map_copy, command_queue = [], current_command_index = 0,
     processed_orders = {}, current_order_id = None, cleaning_workspace = False,
     cleanup_turns = 0, max_cleanup_turns = 20\<rparr>"

subsection \<open>Order selection\<close>

text \<open>
  \<^verbatim>\<open>has_accessible_tile_type\<close>: some tile of the type on the bot's copy of the map has a
  walkable neighbour inside that map, and the Navigator (on the controller's map) finds a
  step towards it or the bot is already adjacent.
\<close>

definition has_accessible_tile_type :: "gmap \<Rightarrow> world \<Rightarrow> string \<Rightarrow> cell \<Rightarrow> bool" where
  "has_accessible_tile_type smap w n from_pos =
     list_ex (\<lambda>t. tile_name (tile_at smap t) = n
                \<and> list_ex (\<lambda>d. let adj = (fst t + fst d, snd t + snd d) in
                                 0 \<le> fst adj \<and> fst adj < width smap \<and> 0 \<le> snd adj \<and> snd adj < height smap
                                 \<and> is_walkable (tile_at smap adj)
                                 \<and> (bfs_to_adjacent w from_pos t \<noteq> None \<or> cheb from_pos t \<le> 1))
                          dirs)
             (all_cells smap)"

text \<open>A property of the food a required name stands for; false for a name that is not a
  member of \<^verbatim>\<open>FoodType\<close> (\<^verbatim>\<open>if food_name in [ft.name for ft in FoodType]\<close>).\<close>

definition needs :: "food_type list \<Rightarrow> (food_type \<Rightarrow> bool) \<Rightarrow> string \<Rightarrow> bool" where
  "needs fts P n = (case lookup_food fts n of None \<Rightarrow> False | Some ft \<Rightarrow> P ft)"

definition cooking_count :: "food_type list \<Rightarrow> order \<Rightarrow> int" where
  "cooking_count fts ord = int (length (filter (needs fts can_cook) (required ord)))"

definition chopping_count :: "food_type list \<Rightarrow> order \<Rightarrow> int" where
  "chopping_count fts ord = int (length (filter (needs fts can_chop) (required ord)))"

text \<open>The fixed per-step cost model of \<^verbatim>\<open>play_turn\<close>.\<close>

definition estimate_turns :: "food_type list \<Rightarrow> order \<Rightarrow> int" where
  "estimate_turns fts ord =
     (let num_ingredients = int (length (required ord));
          base_turns = 25;
          ingredient_turns = num_ingredients * 10;
          chopping_turns = chopping_count fts ord * 7;
          cooking_turns =
            (if cooking_count fts ord > 0 then
               (if num_ingredients - cooking_count fts ord \<le> 1
                then max 0 (cooking_count fts ord - 1) * 28 + 18
                else cooking_count fts ord * 28)
             else 0)
      in base_turns + ingredient_turns + chopping_turns + cooking_turns)"

text \<open>Purchase cost of the known ingredients, plus the plate (\<^verbatim>\<open>ShopCosts.PLATE.buy_cost\<close>,
  from \<^verbatim>\<open>game_constants\<close>: a parameter).\<close>

definition ingredient_cost :: "food_type list \<Rightarrow> int \<Rightarrow> order \<Rightarrow> int" where
  "ingredient_cost fts plate_cost ord =
     sum_list (map (\<lambda>n. case lookup_food fts n of None \<Rightarrow> 0 | Some ft \<Rightarrow> buy_cost ft) (required ord))
       + plate_cost"

text \<open>
  \<^verbatim>\<open>remaining_turns = expires_turn - current_turn\<close>, where a missing \<^verbatim>\<open>expires_turn\<close> is
  \<^verbatim>\<open>float('inf')\<close>: \<open>None\<close> stands for infinitely many turns. The comparisons with
  \<^verbatim>\<open>estimated_turns * 1.15\<close> multiply an integer by a decimal constant; they are modelled
  in exact arithmetic (the two sides are an integer and a multiple of 1/20, which the
  rounding of the double-precision product does not reorder for estimates of this size).
\<close>

definition remaining_of :: "order \<Rightarrow> int \<Rightarrow> int option" where
  "remaining_of ord current_turn = map_option (\<lambda>e. e - current_turn) (expires_turn ord)"

definition turns_less :: "int option \<Rightarrow> real \<Rightarrow> bool" where
  "turns_less remaining x = (case remaining of None \<Rightarrow> False | Some r \<Rightarrow> real_of_int r < x)"

definition turns_at_least :: "int option \<Rightarrow> real \<Rightarrow> bool" where
  "turns_at_least remaining x = (case remaining of None \<Rightarrow> True | Some r \<Rightarrow> real_of_int r \<ge> x)"

definition value_of :: "int option \<Rightarrow> int" where
  "value_of v = (case v of None \<Rightarrow> 0 | Some n \<Rightarrow> n)"

record candidate =
  cand_order :: order
  remaining_turns :: "int option"
  estimated_turns :: int
  total_value :: int
  cost :: int
  profit :: int
  profit_per_turn :: real

definition mk_candidate :: "food_type list \<Rightarrow> int \<Rightarrow> int \<Rightarrow> order \<Rightarrow> candidate" where
  "mk_candidate fts plate_cost current_turn ord =
     \<lparr>cand_order = ord,
      remaining_turns = remaining_of ord current_turn,
      estimated_turns = estimate_turns fts ord,
      total_value = value_of (reward ord) + value_of (penalty ord),
      cost = ingredient_cost fts plate_cost ord,
      profit = value_of (reward ord) + value_of (penalty ord) - ingredient_cost fts plate_cost ord,
      profit_per_turn =
        real_of_int (value_of (reward ord) + value_of (penalty ord) - ingredient_cost fts plate_cost ord)
          / real_of_int (estimate_turns fts ord)\<rparr>"

text \<open>
  The body of the loop over the orders: the order is left alone (inactive or processed),
  or marked processed (one of the five \<^verbatim>\<open>continue\<close> checks), or appended to the
  candidates.
\<close>

definition consider_order ::
  "food_type list \<Rightarrow> int \<Rightarrow> gmap \<Rightarrow> world \<Rightarrow> cell \<Rightarrow> int set \<times> candidate list \<Rightarrow> order
   \<Rightarrow> int set \<times> candidate list" where
  "consider_order fts plate_cost smap w bot_pos acc ord =
     (let processed = fst acc; candidates = snd acc in
      if is_active ord \<and> order_id ord \<notin> processed then
        (let remaining = remaining_of ord (get_turn w);
             has_cooking = list_ex (needs fts can_cook) (required ord);
             min_turns_needed = (if has_cooking then 50 else 10)
         in if turns_less remaining min_turns_needed then (insert (order_id ord) processed, candidates)
            else if cooking_count fts ord > 0 \<and> \<not> has_accessible_tile_type smap w ''COOKER'' bot_pos
              then (insert (order_id ord) processed, candidates)
            else if chopping_count fts ord > 0 \<and> \<not> has_accessible_tile_type smap w ''COUNTER'' bot_pos
              then (insert (order_id ord) processed, candidates)
            else if turns_less remaining (real_of_int (estimate_turns fts ord) * 1.15)
              then (insert (order_id ord) processed, candidates)
            else if ingredient_cost fts plate_cost ord \<ge> value_of (reward ord) + value_of (penalty ord)
              then (insert (order_id ord) processed, candidates)
            else (processed, candidates @ [mk_candidate fts plate_cost (get_turn w) ord]))
      else acc)"

definition collect_candidates ::
  "food_type list \<Rightarrow> int \<Rightarrow> gmap \<Rightarrow> world \<Rightarrow> cell \<Rightarrow> int set \<Rightarrow> int set \<times> candidate list" where
  "collect_candidates fts plate_cost smap w bot_pos processed =
     foldl (consider_order fts plate_cost smap w bot_pos) (processed, []) (get_orders w)"

text \<open>The safety multiplier in force: stricter in the last 200 turns of the 500.\<close>

definition buffer_multiplier :: "int \<Rightarrow> real" where
  "buffer_multiplier current_turn = (if 500 - current_turn < 200 then 1.30 else 1.15)"

text \<open>
  \<^verbatim>\<open>candidate_orders.sort(...)\<close>: Python's sort is stable, also with \<^verbatim>\<open>reverse=True\<close>;
  late in the game by \<^verbatim>\<open>(estimated_turns, -profit)\<close>, before by \<^verbatim>\<open>profit_per_turn\<close>,
  largest first.
\<close>

definition sort_candidates :: "int \<Rightarrow> candidate list \<Rightarrow> candidate list" where
  "sort_candidates current_turn cs =
     (if 500 - current_turn < 200
      then sort_key (\<lambda>c. (estimated_turns c, - profit c)) cs
      else sort_key (\<lambda>c. - profit_per_turn c) cs)"

definition choose_best :: "int \<Rightarrow> candidate list \<Rightarrow> candidate option" where
  "choose_best current_turn cs =
     find (\<lambda>c. turns_at_least (remaining_turns c)
                  (real_of_int (estimated_turns c) * buffer_multiplier current_turn))
          (sort_candidates current_turn cs)"

text \<open>The Order Selector: the orders marked processed on the way, and the order picked.\<close>

definition select_order ::
  "food_type list \<Rightarrow> int \<Rightarrow> gmap \<Rightarrow> world \<Rightarrow> cell \<Rightarrow> int set \<Rightarrow> int set \<times> candidate option" where
  "select_order fts plate_cost smap w bot_pos processed =
     (let pc = collect_candidates fts plate_cost smap w bot_pos processed
      in (fst pc, if snd pc = [] then None else choose_best (get_turn w) (snd pc)))"

subsection \<open>Recovery: abandoning a plan and cleaning up\<close>

definition order_still_active :: "world \<Rightarrow> int \<Rightarrow> bool" where
  "order_still_active w oid = list_ex (\<lambda>ord. order_id ord = oid \<and> is_active ord) (get_orders w)"

text \<open>
  What \<^verbatim>\<open>play_turn\<close> does when the bound order is gone, and again when the current command
  is stuck: the order is marked processed, the queue is cleared and cleanup mode starts.
\<close>

definition abort_order :: "bot_player \<Rightarrow> bot_player" where
  "abort_order p =
     p\<lparr>processed_orders :=
         (case current_order_id p of None \<Rightarrow> processed_orders p
          | Some oid \<Rightarrow> insert oid (processed_orders p)),
       command_queue := [], current_command_index := 0, current_order_id := None,
       cleaning_workspace := True, cleanup_turns := 0\<rparr>"

definition check_order_expiry :: "world \<Rightarrow> bot_player \<Rightarrow> bot_player" where
  "check_order_expiry w p =
     (case current_order_id p of
        None \<Rightarrow> p
      | Some oid \<Rightarrow> if order_still_active w oid then p else abort_order p)"

text \<open>``Adjacent: act; else take a step towards it (if the Navigator gives one).''\<close>

definition approach :: "world \<Rightarrow> cell \<Rightarrow> cell \<Rightarrow> action \<Rightarrow> action option" where
  "approach w pos target a = (if cheb pos target \<le> 1 then Some a else move_towards w pos target)"

definition is_clean_empty_plate :: "item \<Rightarrow> bool" where
  "is_clean_empty_plate h = (case h of Plate is_dirty food_on_plate \<Rightarrow> food_on_plate = [] \<and> \<not> is_dirty
                             | _ \<Rightarrow> False)"

definition plate_spot :: "world \<Rightarrow> cell \<Rightarrow> cell option" where
  "plate_spot w pos =
     (case find_closest_empty_tile w ''COUNTER'' pos of
        None \<Rightarrow> find_closest_empty_tile w ''BOX'' pos
      | Some t \<Rightarrow> Some t)"

text \<open>Cleanup with something in hand: a clean empty plate is put down, anything else is
  trashed; with nowhere to do so, cleanup mode is left.\<close>

definition cleanup_holding :: "world \<Rightarrow> cell \<Rightarrow> item \<Rightarrow> bot_player \<Rightarrow> bot_player \<times> action option" where
  "cleanup_holding w pos h p =
     (if is_clean_empty_plate h then
        (case plate_spot w pos of
           Some target \<Rightarrow> (p, approach w pos target (Place target))
         | None \<Rightarrow> (p\<lparr>cleaning_workspace := False\<rparr>, None))
      else
        (case find_tile w ''TRASH'' of
           Some trash \<Rightarrow> (p, approach w pos trash (Trash trash))
         | None \<Rightarrow> (p\<lparr>cleaning_workspace := False\<rparr>, None)))"

text \<open>The two passes over counters and boxes: the first with food on it, else the first
  with a plate on it.\<close>

definition cleanup_target :: "world \<Rightarrow> cell option" where
  "cleanup_target w =
     (let on_station = (\<lambda>c. tile_name (tile_at (get_map w) c) = ''COUNTER''
                           \<or> tile_name (tile_at (get_map w) c) = ''BOX'') in
      case find (\<lambda>c. on_station c \<and> (case item (tile_at (get_map w) c) of Some (Food _) \<Rightarrow> True | _ \<Rightarrow> False))
                (all_cells (get_map w)) of
        Some c \<Rightarrow> Some c
      | None \<Rightarrow>
          find (\<lambda>c. on_station c \<and> (case item (tile_at (get_map w) c) of Some (Plate _ _) \<Rightarrow> True | _ \<Rightarrow> False))
               (all_cells (get_map w)))"

text \<open>One tick in cleanup mode.\<close>

definition cleanup_step :: "world \<Rightarrow> int \<Rightarrow> bot_player \<Rightarrow> bot_player \<times> action option" where
  "cleanup_step w bot_id p0 =
     (let p = p0\<lparr>cleanup_turns := cleanup_turns p0 + 1\<rparr> in
      if cleanup_turns p > max_cleanup_turns p
      then (p\<lparr>cleaning_workspace := False, cleanup_turns := 0\<rparr>, None)
      else case get_bot_state w bot_id of
             None \<Rightarrow> (p, None)
           | Some st \<Rightarrow>
               let pos = (bot_x st, bot_y st) in
               (case holding st of
                  Some h \<Rightarrow> cleanup_holding w pos h p
                | None \<Rightarrow>
                    (case cleanup_target w of
                       Some target \<Rightarrow> (p, approach w pos target (Pickup target))
                     | None \<Rightarrow> (p\<lparr>cleaning_workspace := False\<rparr>, None))))"

subsection \<open>The executor\<close>

text \<open>Between orders with something in hand: put a clean empty plate down, trash anything
  else; the bot's own state does not change.\<close>

definition dispose_held :: "world \<Rightarrow> cell \<Rightarrow> item \<Rightarrow> action option" where
  "dispose_held w pos h =
     (if is_clean_empty_plate h then
        (case plate_spot w pos of None \<Rightarrow> None | Some target \<Rightarrow> approach w pos target (Place target))
      else
        (case find_tile w ''TRASH'' of None \<Rightarrow> None | Some trash \<Rightarrow> approach w pos trash (Trash trash)))"

text \<open>
  \<^verbatim>\<open>Command.execute\<close> is abstract and dispatched on the object; \<^verbatim>\<open>play_turn\<close> is modelled
  over any implementation \<open>exec\<close> of it (\<open>execute\<close> above is the one of the fourteen
  classes of the source). The world the controller shows after the command's request is
  \<open>sim\<close>'s.
\<close>

type_synonym executor = "simulator \<Rightarrow> world \<Rightarrow> int \<Rightarrow> command \<Rightarrow> py_error + command \<times> action option"

definition world_after :: "simulator \<Rightarrow> world \<Rightarrow> int \<Rightarrow> action option \<Rightarrow> world" where
  "world_after sim w bot_id a = (case a of None \<Rightarrow> w | Some act \<Rightarrow> sim w bot_id act)"

text \<open>The last part of \<^verbatim>\<open>play_turn\<close>: stuck check, one step of the current command,
  completion check.\<close>

definition run_current ::
  "executor \<Rightarrow> simulator \<Rightarrow> world \<Rightarrow> int \<Rightarrow> bot_player \<Rightarrow> py_error + bot_player \<times> action option" where
  "run_current exec sim w bot_id p =
     (if current_command_index p \<ge> length (command_queue p)
      then Inr (p\<lparr>current_order_id := None\<rparr>, None)
      else
        let current_cmd = command_queue p ! current_command_index p in
        if is_stuck current_cmd then Inr (abort_order p, None)
        else
          (case exec sim w bot_id current_cmd of
             Inl e \<Rightarrow> Inl e
           | Inr (cmd', a) \<Rightarrow>
               let p1 = p\<lparr>command_queue := (command_queue p)[current_command_index p := cmd']\<rparr> in
               if is_complete (world_after sim w bot_id a) bot_id cmd' then
                 (let p2 = p1\<lparr>current_command_index := current_command_index p1 + 1\<rparr> in
                  if current_command_index p2 \<ge> length (command_queue p2)
                  then Inr (p2\<lparr>processed_orders :=
                                  (case current_order_id p2 of None \<Rightarrow> processed_orders p2
                                   | Some oid \<Rightarrow> insert oid (processed_orders p2)),
                                current_order_id := None\<rparr>, a)
                  else Inr (p2, a))
               else Inr (p1, a)))"

text \<open>With no command left: get rid of what is held, or select an order, compile its plan
  and start on it in the same tick.\<close>

definition start_new_order ::
  "food_type list \<Rightarrow> int \<Rightarrow> executor \<Rightarrow> simulator \<Rightarrow> world \<Rightarrow> int \<Rightarrow> bot_player
   \<Rightarrow> py_error + bot_player \<times> action option" where
  "start_new_order fts plate_cost exec sim w bot_id p =
     (case get_bot_state w bot_id of
        None \<Rightarrow> Inr (p, None)
      | Some st \<Rightarrow>
          (case holding st of
             Some h \<Rightarrow> Inr (p, dispose_held w (bot_x st, bot_y st) h)
           | None \<Rightarrow>
               let sel = select_order fts plate_cost (bp_map p) w (bot_x st, bot_y st) (processed_orders p);
                   p1 = p\<lparr>processed_orders := fst sel\<rparr>
               in (case snd sel of
                     None \<Rightarrow> Inr (p1, None)
                   | Some best \<Rightarrow>
                       let p2 = p1\<lparr>current_order_id := Some (order_id (cand_order best)),
                                   command_queue := build_commands_for_order fts (cand_order best) (Some w),
                                   current_command_index := 0\<rparr>
                       in if command_queue p2 = [] then Inr (p2, None)
                          else run_current exec sim w bot_id p2)))"

text \<open>\<^verbatim>\<open>BotPlayer.play_turn\<close>\<close>

definition play_turn ::
  "food_type list \<Rightarrow> int \<Rightarrow> executor \<Rightarrow> simulator \<Rightarrow> world \<Rightarrow> bot_player
   \<Rightarrow> py_error + bot_player \<times> action option" where
  "play_turn fts plate_cost exec sim w p0 =
     (case get_team_bot_ids w of
        [] \<Rightarrow> Inr (p0, None)
      | bot_id # _ \<Rightarrow>
          let p = check_order_expiry w p0 in
          if cleaning_workspace p then Inr (cleanup_step w bot_id p)
          else if command_queue p = [] \<or> current_command_index p \<ge> length (command_queue p)
          then start_new_order fts plate_cost exec sim w bot_id p
          else run_current exec sim w bot_id p)"


subsection \<open>What the selector and the executor preserve\<close>

text \<open>A candidate as the loop over the orders builds it: made from an active, unprocessed
  order of the controller that passed the time check and the profitability check.\<close>

definition acceptable :: "food_type list \<Rightarrow> int \<Rightarrow> world \<Rightarrow> int set \<Rightarrow> candidate \<Rightarrow> bool" where
  "acceptable fts plate_cost w processed c \<longleftrightarrow>
     c = mk_candidate fts plate_cost (get_turn w) (cand_order c)
     \<and> cand_order c \<in> set (get_orders w)
     \<and> is_active (cand_order c)
     \<and> order_id (cand_order c) \<notin> processed
     \<and> \<not> turns_less (remaining_of (cand_order c) (get_turn w))
            (real_of_int (estimate_turns fts (cand_order c)) * 1.15)
     \<and> ingredient_cost fts plate_cost (cand_order c)
           < value_of (reward (cand_order c)) + value_of (penalty (cand_order c))"

lemma cand_order_mk: "cand_order (mk_candidate fts pc t ord) = ord"
  by (simp add: mk_candidate_def)

lemma consider_order_sound:
  assumes "consider_order fts pc smap w pos (P, C) ord = (P', C')"
    and "ord \<in> set (get_orders w)" and "P0 \<subseteq> P"
    and "\<forall>c \<in> set C. acceptable fts pc w P0 c"
  shows "P \<subseteq> P' \<and> (\<forall>c \<in> set C'. acceptable fts pc w P0 c)"
proof (cases "(P', C') = (P, C)")
  case True
  then show ?thesis using assms(4) by simp
next
  case False
  show ?thesis
  proof (cases "C' = C")
    case True
    with assms(1) have "P' = insert (order_id ord) P"
      using False by (auto simp: consider_order_def Let_def split: if_splits)
    with True assms(4) show ?thesis by auto
  next
    case False
    with assms(1) have C': "C' = C @ [mk_candidate fts pc (get_turn w) ord]" and P': "P' = P"
      and act: "is_active ord" "order_id ord \<notin> P"
      and ok: "\<not> turns_less (remaining_of ord (get_turn w)) (real_of_int (estimate_turns fts ord) * 1.15)"
        "ingredient_cost fts pc ord < value_of (reward ord) + value_of (penalty ord)"
      by (auto simp: consider_order_def Let_def split: if_splits)
    have "acceptable fts pc w P0 (mk_candidate fts pc (get_turn w) ord)"
      unfolding acceptable_def cand_order_mk using act ok assms(2,3) by auto
    with C' P' assms(4) show ?thesis by auto
  qed
qed

lemma foldl_consider_sound:
  assumes "foldl (consider_order fts pc smap w pos) (P, C) os = (P', C')"
    and "set os \<subseteq> set (get_orders w)" and "P0 \<subseteq> P"
    and "\<forall>c \<in> set C. acceptable fts pc w P0 c"
  shows "P \<subseteq> P' \<and> (\<forall>c \<in> set C'. acceptable fts pc w P0 c)"
  using assms
proof (induction os arbitrary: P C)
  case Nil
  then show ?case by simp
next
  case (Cons ord os)
  obtain P1 C1 where step: "consider_order fts pc smap w pos (P, C) ord = (P1, C1)"
    by (cases "consider_order fts pc smap w pos (P, C) ord") auto
  from Cons.prems(2) have mem: "ord \<in> set (get_orders w)" and sub: "set os \<subseteq> set (get_orders w)"
    by auto
  from consider_order_sound[OF step mem Cons.prems(3,4)]
  have s1: "P \<subseteq> P1" and a1: "\<forall>c \<in> set C1. acceptable fts pc w P0 c" by auto
  from Cons.prems(1) step have "foldl (consider_order fts pc smap w pos) (P1, C1) os = (P', C')"
    by simp
  from Cons.IH[OF this sub _ a1] s1 Cons.prems(3) show ?case by auto
qed

lemma collect_candidates_sound:
  assumes "collect_candidates fts pc smap w pos P = (P', C')"
  shows "P \<subseteq> P' \<and> (\<forall>c \<in> set C'. acceptable fts pc w P c)"
  using foldl_consider_sound[of fts pc smap w pos P "[]" "get_orders w" P' C' P] assms
  by (simp add: collect_candidates_def)

lemma choose_best_sound:
  assumes "choose_best t cs = Some b"
  shows "b \<in> set cs \<and> turns_at_least (remaining_turns b) (real_of_int (estimated_turns b) * buffer_multiplier t)"
proof -
  from assms have "b \<in> set (sort_candidates t cs)"
    and ok: "turns_at_least (remaining_turns b) (real_of_int (estimated_turns b) * buffer_multiplier t)"
    by (auto simp: choose_best_def find_Some_iff)
  moreover have "set (sort_candidates t cs) = set cs"
    by (simp add: sort_candidates_def)
  ultimately show ?thesis by simp
qed

lemma select_order_sound:
  assumes "select_order fts pc smap w pos P = (P', Some best)"
  shows "P \<subseteq> P' \<and> acceptable fts pc w P best
     \<and> turns_at_least (remaining_of (cand_order best) (get_turn w))
          (real_of_int (estimate_turns fts (cand_order best)) * buffer_multiplier (get_turn w))"
proof -
  obtain C where col: "collect_candidates fts pc smap w pos P = (P', C)"
    and best: "choose_best (get_turn w) C = Some best"
    using assms by (cases "collect_candidates fts pc smap w pos P")
      (auto simp: select_order_def Let_def split: if_splits)
  from collect_candidates_sound[OF col] choose_best_sound[OF best]
  have sub: "P \<subseteq> P'" and acc: "acceptable fts pc w P best"
    and ok: "turns_at_least (remaining_turns best) (real_of_int (estimated_turns best) * buffer_multiplier (get_turn w))"
    by auto
  from acc have "best = mk_candidate fts pc (get_turn w) (cand_order best)"
    by (simp add: acceptable_def)
  then have "remaining_turns best = remaining_of (cand_order best) (get_turn w)"
    and "estimated_turns best = estimate_turns fts (cand_order best)"
    by (metis candidate.select_convs(2) mk_candidate_def, metis candidate.select_convs(3) mk_candidate_def)
  with sub acc ok show ?thesis by simp
qed

lemma select_order_mono:
  "select_order fts pc smap w pos P = (P', r) \<Longrightarrow> P \<subseteq> P'"
  using collect_candidates_sound[of fts pc smap w pos P]
  by (cases "collect_candidates fts pc smap w pos P") (auto simp: select_order_def Let_def)

lemma abort_order_fields:
  "processed_orders (abort_order p) = processed_orders p \<union> set_option (current_order_id p)"
  "current_order_id (abort_order p) = None"
  "command_queue (abort_order p) = []"
  "current_command_index (abort_order p) = 0"
  "cleaning_workspace (abort_order p)"
  "cleanup_turns (abort_order p) = 0"
  "max_cleanup_turns (abort_order p) = max_cleanup_turns p"
  "bp_map (abort_order p) = bp_map p"
  by (auto simp: abort_order_def split: option.splits)

lemma check_order_expiry_cases:
  "(check_order_expiry w p = p
      \<and> (\<forall>oid. current_order_id p = Some oid \<longrightarrow> order_still_active w oid))
   \<or> (\<exists>oid. current_order_id p = Some oid \<and> \<not> order_still_active w oid
         \<and> check_order_expiry w p = abort_order p)"
  by (auto simp: check_order_expiry_def split: option.splits)

lemma cleanup_holding_frame:
  "cleanup_holding w pos h p = (p', a) \<Longrightarrow>
   p' = p \<or> p' = p\<lparr>cleaning_workspace := False\<rparr>"
  by (auto simp: cleanup_holding_def split: option.splits if_splits)

lemma cleanup_step_frame:
  assumes "cleanup_step w b p = (p', a)"
  shows "processed_orders p' = processed_orders p \<and> current_order_id p' = current_order_id p
     \<and> command_queue p' = command_queue p \<and> current_command_index p' = current_command_index p
     \<and> max_cleanup_turns p' = max_cleanup_turns p \<and> bp_map p' = bp_map p
     \<and> (cleaning_workspace p' \<longrightarrow> cleaning_workspace p)
     \<and> (cleaning_workspace p' \<longrightarrow>
           cleanup_turns p' = cleanup_turns p + 1 \<and> cleanup_turns p + 1 \<le> max_cleanup_turns p)"
proof -
  let ?p1 = "p\<lparr>cleanup_turns := cleanup_turns p + 1\<rparr>"
  from assms consider
      (timeout) "cleanup_turns p + 1 > max_cleanup_turns p"
        "p' = ?p1\<lparr>cleaning_workspace := False, cleanup_turns := 0\<rparr>"
    | (stay) "\<not> cleanup_turns p + 1 > max_cleanup_turns p" "p' = ?p1"
    | (leave) "\<not> cleanup_turns p + 1 > max_cleanup_turns p" "p' = ?p1\<lparr>cleaning_workspace := False\<rparr>"
    by (auto simp: cleanup_step_def Let_def split: option.splits if_splits
        dest!: cleanup_holding_frame)
  then show ?thesis by cases auto
qed

lemma run_current_frame:
  assumes "run_current exec sim w b p = Inr (p', a)"
  shows "processed_orders p \<subseteq> processed_orders p'
     \<and> processed_orders p' \<subseteq> processed_orders p \<union> set_option (current_order_id p)
     \<and> (current_order_id p' = current_order_id p \<or> current_order_id p' = None)
     \<and> max_cleanup_turns p' = max_cleanup_turns p \<and> bp_map p' = bp_map p
     \<and> (cleaning_workspace p' \<and> \<not> cleaning_workspace p \<longrightarrow>
           current_order_id p' = None \<and> cleanup_turns p' = 0)
     \<and> (cleaning_workspace p \<longrightarrow> cleaning_workspace p')"
  using assms
  by (auto simp: run_current_def Let_def abort_order_def
      split: if_splits sum.splits prod.splits option.splits)

lemma start_new_order_frame:
  assumes "start_new_order fts pc exec sim w b p = Inr (p', a)"
  shows "processed_orders p \<subseteq> processed_orders p'
     \<and> max_cleanup_turns p' = max_cleanup_turns p \<and> bp_map p' = bp_map p
     \<and> (current_order_id p' = current_order_id p \<or> current_order_id p' = None
         \<or> (\<exists>st P' best. get_bot_state w b = Some st
               \<and> select_order fts pc (bp_map p) w (bot_x st, bot_y st) (processed_orders p) = (P', Some best)
               \<and> current_order_id p' = Some (order_id (cand_order best))))
     \<and> (cleaning_workspace p' \<and> \<not> cleaning_workspace p \<longrightarrow>
           current_order_id p' = None \<and> cleanup_turns p' = 0)
     \<and> (cleaning_workspace p \<longrightarrow> cleaning_workspace p')"
proof (cases "get_bot_state w b")
  case None
  with assms show ?thesis by (simp add: start_new_order_def)
next
  case (Some st)
  show ?thesis
  proof (cases "holding st")
    case h: (Some h)
    with assms Some show ?thesis by (simp add: start_new_order_def)
  next
    case None
    obtain P' r where sel: "select_order fts pc (bp_map p) w (bot_x st, bot_y st) (processed_orders p) = (P', r)"
      by (cases "select_order fts pc (bp_map p) w (bot_x st, bot_y st) (processed_orders p)") auto
    from select_order_mono[OF sel] have mono: "processed_orders p \<subseteq> P'" .
    show ?thesis
    proof (cases r)
      case rn: None
      with assms Some None sel mono show ?thesis
        by (auto simp: start_new_order_def Let_def)
    next
      case rs: (Some best)
      let ?p2 = "p\<lparr>processed_orders := P', current_order_id := Some (order_id (cand_order best)),
                   command_queue := build_commands_for_order fts (cand_order best) (Some w),
                   current_command_index := 0\<rparr>"
      show ?thesis
      proof (cases "command_queue ?p2 = []")
        case True
        with assms Some None sel rs mono have "p' = ?p2"
          by (auto simp: start_new_order_def Let_def)
        then show ?thesis using mono Some sel rs by auto
      next
        case False
        with assms Some None sel rs have rc: "run_current exec sim w b ?p2 = Inr (p', a)"
          by (auto simp: start_new_order_def Let_def)
        from run_current_frame[OF rc] mono Some sel rs show ?thesis
          by (auto simp del: subset_iff)
      qed
    qed
  qed
qed

lemma play_turn_frame:
  assumes "play_turn fts pc exec sim w p = Inr (p', a)"
  shows "processed_orders p \<subseteq> processed_orders p'
     \<and> max_cleanup_turns p' = max_cleanup_turns p \<and> bp_map p' = bp_map p
     \<and> (current_order_id p' = current_order_id p \<or> current_order_id p' = None
         \<or> (\<exists>bid rest st P' best. get_team_bot_ids w = bid # rest \<and> get_bot_state w bid = Some st
               \<and> select_order fts pc (bp_map p) w (bot_x st, bot_y st)
                    (processed_orders (check_order_expiry w p)) = (P', Some best)
               \<and> current_order_id p' = Some (order_id (cand_order best))))
     \<and> ((cleaning_workspace p \<longrightarrow> current_order_id p = None)
          \<longrightarrow> (cleaning_workspace p' \<longrightarrow> current_order_id p' = None))"
proof (cases "get_team_bot_ids w")
  case Nil
  with assms show ?thesis by (simp add: play_turn_def)
next
  case (Cons bid rest)
  let ?p = "check_order_expiry w p"
  have exp: "processed_orders p \<subseteq> processed_orders ?p
      \<and> max_cleanup_turns ?p = max_cleanup_turns p \<and> bp_map ?p = bp_map p
      \<and> (current_order_id ?p = current_order_id p \<or> current_order_id ?p = None)
      \<and> ((cleaning_workspace p \<longrightarrow> current_order_id p = None)
            \<longrightarrow> (cleaning_workspace ?p \<longrightarrow> current_order_id ?p = None))"
    using check_order_expiry_cases[of w p] by (auto simp: abort_order_fields)
  show ?thesis
  proof (cases "cleaning_workspace ?p")
    case True
    with assms Cons have "cleanup_step w bid ?p = (p', a)" by (simp add: play_turn_def Let_def)
    from cleanup_step_frame[OF this] exp show ?thesis by auto
  next
    case nc: False
    show ?thesis
    proof (cases "command_queue ?p = [] \<or> current_command_index ?p \<ge> length (command_queue ?p)")
      case True
      with assms Cons nc have "start_new_order fts pc exec sim w bid ?p = Inr (p', a)"
        by (simp add: play_turn_def Let_def)
      from start_new_order_frame[OF this] exp nc Cons show ?thesis
        by (auto simp del: subset_iff)
    next
      case False
      with assms Cons nc have "run_current exec sim w bid ?p = Inr (p', a)"
        by (simp add: play_turn_def Let_def)
      from run_current_frame[OF this] exp nc show ?thesis
        by (auto simp del: subset_iff)
    qed
  qed
qed

subsection \<open>C2: what the Order Selector picks\<close>

text \<open>The orders of the repository's test of the selector, in the kitchen at turn 10.\<close>

definition test_orders :: "order list" where
  "test_orders = [mk_order 1 [''NOODLES'', ''MEAT''] 120 30 200,
                  mk_order 2 [''VEGGIE''] 20 5 200,
                  mk_order 3 [''NOODLES''] 5 0 200]"

definition test_world :: world where
  "test_world = one_bot_world kitchen_map (2, 1) None test_orders 10"

text \<open>
  C2: on every tick on which \<^verbatim>\<open>play_turn\<close> binds the bot to an order (its
  \<^verbatim>\<open>current_order_id\<close> becomes an id it was not bound to before), an order with that id
  is among the controller's orders, active and not yet processed, whose remaining turns are
  at least its estimated turns times the safety multiplier in force at that turn (1.30 in
  the last 200 turns, 1.15 before), and whose ingredient cost, plate included, is strictly
  less than reward plus penalty. This holds for every implementation of the commands and
  every behaviour of the simulation.
\<close>

theorem picked_order_has_time_and_profit:
  assumes "play_turn fts plate_cost exec sim w p = Inr (p', a)"
    and "current_order_id p' = Some oid" and "current_order_id p \<noteq> Some oid"
  shows "\<exists>ord. ord \<in> set (get_orders w) \<and> order_id ord = oid \<and> is_active ord
           \<and> oid \<notin> processed_orders p
           \<and> turns_at_least (remaining_of ord (get_turn w))
                (real_of_int (estimate_turns fts ord) * buffer_multiplier (get_turn w))
           \<and> ingredient_cost fts plate_cost ord < value_of (reward ord) + value_of (penalty ord)"
proof -
  note cur = play_turn_frame[OF assms(1), THEN conjunct2, THEN conjunct2, THEN conjunct2, THEN conjunct1]
  with assms(2,3) have "\<exists>(st::bot_state) P' best. select_order fts plate_cost (bp_map p) w (bot_x st, bot_y st)
            (processed_orders (check_order_expiry w p)) = (P', Some best)
          \<and> order_id (cand_order best) = oid"
    by auto
  then obtain st :: bot_state and P' best where
    sel: "select_order fts plate_cost (bp_map p) w (bot_x st, bot_y st)
            (processed_orders (check_order_expiry w p)) = (P', Some best)"
    and oid: "order_id (cand_order best) = oid"
    by (elim exE conjE)
  have sub: "processed_orders p \<subseteq> processed_orders (check_order_expiry w p)"
    using check_order_expiry_cases[of w p] by (auto simp: abort_order_fields)
  from select_order_sound[OF sel]
  have acc: "acceptable fts plate_cost w (processed_orders (check_order_expiry w p)) best"
    and ok: "turns_at_least (remaining_of (cand_order best) (get_turn w))
          (real_of_int (estimate_turns fts (cand_order best)) * buffer_multiplier (get_turn w))"
    by simp_all
  from acc sub oid have "cand_order best \<in> set (get_orders w)" "is_active (cand_order best)"
    "oid \<notin> processed_orders p"
    "ingredient_cost fts plate_cost (cand_order best)
       < value_of (reward (cand_order best)) + value_of (penalty (cand_order best))"
    by (auto simp: acceptable_def)
  with ok oid show ?thesis by (intro exI[of _ "cand_order best"]) simp
qed

lemma test_tick:
  "(case play_turn test_FoodType 2 (execute 2) refusing test_world (BotPlayer kitchen_map) of
      Inr (p', a) \<Rightarrow> current_order_id p' = Some 1 \<and> a = Some (Move (-1) 0) \<and> processed_orders p' = {3}
    | Inl e \<Rightarrow> False)"
  by code_simp

lemma test_facts:
  "get_orders test_world = test_orders \<and> get_turn test_world = 10
   \<and> current_order_id (BotPlayer kitchen_map) = None
   \<and> remaining_of (mk_order 1 [''NOODLES'', ''MEAT''] 120 30 200) 10 = Some 190
   \<and> estimate_turns test_FoodType (mk_order 1 [''NOODLES'', ''MEAT''] 120 30 200) = 63
   \<and> ingredient_cost test_FoodType 2 (mk_order 1 [''NOODLES'', ''MEAT''] 120 30 200) = 19
   \<and> buffer_multiplier 10 = 1.15
   \<and> order_id (mk_order 2 [''VEGGIE''] 20 5 200) \<noteq> 1
   \<and> order_id (mk_order 3 [''NOODLES''] 5 0 200) \<noteq> 1"
  by code_simp

theorem picked_order_has_time_and_profit_witness:
  "(\<exists>p' a. play_turn test_FoodType 2 (execute 2) refusing test_world (BotPlayer kitchen_map) = Inr (p', a)
       \<and> current_order_id p' = Some 1)
   \<and> remaining_of (mk_order 1 [''NOODLES'', ''MEAT''] 120 30 200) (get_turn test_world) = Some 190
   \<and> estimate_turns test_FoodType (mk_order 1 [''NOODLES'', ''MEAT''] 120 30 200) = 63
   \<and> turns_at_least (remaining_of (mk_order 1 [''NOODLES'', ''MEAT''] 120 30 200) (get_turn test_world))
        (real_of_int (estimate_turns test_FoodType (mk_order 1 [''NOODLES'', ''MEAT''] 120 30 200))
           * buffer_multiplier (get_turn test_world))
   \<and> ingredient_cost test_FoodType 2 (mk_order 1 [''NOODLES'', ''MEAT''] 120 30 200) < 120 + 30"
proof -
  let ?o1 = "mk_order 1 [''NOODLES'', ''MEAT''] 120 30 200"
  obtain p' a where run: "play_turn test_FoodType 2 (execute 2) refusing test_world (BotPlayer kitchen_map) = Inr (p', a)"
    and cur: "current_order_id p' = Some 1"
    using test_tick
    by (cases "play_turn test_FoodType 2 (execute 2) refusing test_world (BotPlayer kitchen_map)") auto
  from picked_order_has_time_and_profit[OF run cur] test_facts
  obtain ord where ord: "ord \<in> set test_orders" "order_id ord = 1"
    and ok: "turns_at_least (remaining_of ord (get_turn test_world))
                (real_of_int (estimate_turns test_FoodType ord) * buffer_multiplier (get_turn test_world))"
    and pr: "ingredient_cost test_FoodType 2 ord < value_of (reward ord) + value_of (penalty ord)"
    by auto
  from ord test_facts have "ord = ?o1" by (auto simp: test_orders_def)
  with ok pr have "turns_at_least (remaining_of ?o1 (get_turn test_world))
        (real_of_int (estimate_turns test_FoodType ?o1) * buffer_multiplier (get_turn test_world))"
    and "ingredient_cost test_FoodType 2 ?o1 < 120 + 30"
    by (simp_all add: mk_order_def value_of_def)
  with run cur test_facts show ?thesis by auto
qed

subsection \<open>Orders that are gone, and the cleanup mode\<close>















subsection \<open>C7: an order that is no longer reported active\<close>





subsection \<open>C10: the cleanup mode ends\<close>





end
